theory Spec2Isabelle
  imports Main "HOL-Library.Multiset" "HOL-Library.Product_Lexorder" "HOL-Library.Sublist"
begin

section \<open>Strings and messages (agent/models.py)\<close>

text \<open>
  A Python \<open>str\<close> is a sequence of Unicode code points, so it is modelled as a list of
  natural numbers; \<open>str\<close> embeds an ASCII literal. Timestamps (\<open>datetime\<close>) are points of
  one time line, counted in microseconds as an \<open>int\<close>.
\<close>

type_synonym pystr = "nat list"

definition str :: "string \<Rightarrow> pystr" where
  "str s = map of_char s"

text \<open>The code points for which Python's \<open>str.isspace\<close> holds; \<open>str.strip()\<close> removes them
  from both ends.\<close>

definition is_space :: "nat \<Rightarrow> bool" where
  "is_space c \<longleftrightarrow>
     (9 \<le> c \<and> c \<le> 13) \<or> (28 \<le> c \<and> c \<le> 32) \<or> c = 133 \<or> c = 160 \<or> c = 5760 \<or>
     (8192 \<le> c \<and> c \<le> 8202) \<or> c = 8232 \<or> c = 8233 \<or> c = 8239 \<or> c = 8287 \<or> c = 12288"

definition strip :: "pystr \<Rightarrow> pystr" where
  "strip s = rev (dropWhile is_space (rev (dropWhile is_space s)))"

datatype role = User | Assistant | System

fun role_str :: "role \<Rightarrow> pystr" where
  "role_str User = str ''user''"
| "role_str Assistant = str ''assistant''"
| "role_str System = str ''system''"

record message =
  role :: role
  content :: pystr
  timestamp :: int
  metadata :: "(pystr \<times> pystr) list option"

datatype validation_error = EmptyContent | BadRole | BadField

text \<open>\<open>Message.validate_content\<close>: an empty or all-whitespace content is refused, any other
  content is stored stripped.\<close>

definition validate_content :: "pystr \<Rightarrow> validation_error + pystr" where
  "validate_content v = (if v = [] \<or> strip v = [] then Inl EmptyContent else Inr (strip v))"

text \<open>The constructor \<open>Message(role=r, content=c, metadata=md)\<close>; the timestamp is the default
  \<open>datetime.now()\<close>, passed as \<open>now\<close>.\<close>

definition Message :: "role \<Rightarrow> pystr \<Rightarrow> (pystr \<times> pystr) list option \<Rightarrow> int
    \<Rightarrow> validation_error + message" where
  "Message r c md now =
     (case validate_content c of
        Inl e \<Rightarrow> Inl e
      | Inr c' \<Rightarrow> Inr \<lparr>role = r, content = c', timestamp = now, metadata = md\<rparr>)"

section \<open>The context window (agent/context_manager.py)\<close>

record context_manager =
  messages :: "message list"
  max_messages :: int
  model_name :: pystr

text \<open>\<open>ContextManager.__init__\<close>: an empty window.\<close>

definition init_context :: "int \<Rightarrow> pystr \<Rightarrow> context_manager" where
  "init_context n m = \<lparr>messages = [], max_messages = n, model_name = m\<rparr>"

text \<open>The tokenizer (\<open>tiktoken\<close>) is not part of the repository: \<open>enc t\<close> stands for
  \<open>len(self.encoder.encode(t))\<close> in every function below.\<close>

definition count_message_tokens :: "(pystr \<Rightarrow> nat) \<Rightarrow> message \<Rightarrow> int" where
  "count_message_tokens enc m = int (enc (role_str (role m))) + int (enc (content m)) + 4"

definition system_messages :: "message list \<Rightarrow> message list" where
  "system_messages ms = filter (\<lambda>m. role m = System) ms"

definition other_messages :: "message list \<Rightarrow> message list" where
  "other_messages ms = filter (\<lambda>m. role m \<noteq> System) ms"

text \<open>The eviction loop of \<open>add_to_context\<close>: \<open>pop\<close> the first message whose role is not
  \<open>system\<close>, then \<open>break\<close>.\<close>

fun pop_first_other :: "message list \<Rightarrow> message list" where
  "pop_first_other [] = []"
| "pop_first_other (m # ms) = (if role m \<noteq> System then ms else m # pop_first_other ms)"

definition add_to_context :: "context_manager \<Rightarrow> message \<Rightarrow> context_manager" where
  "add_to_context cm m =
     (let ms = messages cm @ [m] in
      if int (length (other_messages ms)) > max_messages cm
      then cm\<lparr>messages := pop_first_other ms\<rparr>
      else cm\<lparr>messages := ms\<rparr>)"

text \<open>A sequence of single-turn appends.\<close>

fun add_all :: "context_manager \<Rightarrow> message list \<Rightarrow> context_manager" where
  "add_all cm [] = cm"
| "add_all cm (m # ms) = add_all (add_to_context cm m) ms"

text \<open>The selection loop of \<open>get_context\<close> over \<open>reversed(other_messages)\<close>, with its two
  accumulators \<open>result_messages\<close> and \<open>total_tokens\<close>; the \<open>else\<close> branch is the \<open>break\<close>.\<close>

fun select_recent :: "(pystr \<Rightarrow> nat) \<Rightarrow> int \<Rightarrow> message list \<times> int \<Rightarrow> message list
    \<Rightarrow> message list \<times> int" where
  "select_recent enc max_tokens (res, tokens) [] = (res, tokens)"
| "select_recent enc max_tokens (res, tokens) (m # ms) =
     (if tokens + count_message_tokens enc m \<le> max_tokens
      then select_recent enc max_tokens (res @ [m], tokens + count_message_tokens enc m) ms
      else (res, tokens))"

text \<open>The key of the final \<open>sort\<close>: the pair (not system, timestamp), compared
  lexicographically with \<open>False < True\<close>. Python's sort is stable, as \<open>sort_key\<close> is.\<close>

definition sort_key_of :: "message \<Rightarrow> bool \<times> int" where
  "sort_key_of m = (role m \<noteq> System, timestamp m)"

definition total_cost :: "(pystr \<Rightarrow> nat) \<Rightarrow> message list \<Rightarrow> int" where
  "total_cost enc ms = sum_list (map (count_message_tokens enc) ms)"

definition get_context :: "(pystr \<Rightarrow> nat) \<Rightarrow> context_manager \<Rightarrow> int \<Rightarrow> message list" where
  "get_context enc cm max_tokens =
     (if messages cm = [] then []
      else
        let sys = system_messages (messages cm);
            others = other_messages (messages cm);
            tokens = total_cost enc sys;
            (res, _) = select_recent enc max_tokens (sys, tokens) (rev others)
        in sort_key sort_key_of res)"

subsection \<open>Summarization\<close>

text \<open>The two \<open>ValueError\<close>s of \<open>summarize_old_context\<close> (too few messages; nothing but system
  messages), an exception \<open>'e\<close> raised by the caller's summarizer, and a validation error of
  the \<open>Message\<close> constructor.\<close>

datatype value_error = NotEnoughMessages | NothingToSummarize

datatype 'e summarize_error =
  ValueError value_error | SummarizerRaised 'e | ValidationError validation_error

text \<open>The prefix of the summary turn, the ten code points of the Korean phrase for
  "summary of the previous conversation", a colon and a space.\<close>

definition summary_prefix :: pystr where
  "summary_prefix = [51060, 51204, 32, 45824, 54868, 32, 50836, 50557, 58, 32]"

text \<open>\<open>summarize_old_context\<close> returns the summary and the updated window, or the exception;
  nothing is assigned before the last step, so an exception leaves the window as it was.\<close>

definition summarize_old_context ::
  "(message list \<Rightarrow> 'e + pystr) \<Rightarrow> int \<Rightarrow> context_manager
    \<Rightarrow> 'e summarize_error + (pystr \<times> context_manager)" where
  "summarize_old_context summarizer_func now cm =
     (if length (messages cm) < 2 then Inl (ValueError NotEnoughMessages)
      else
        let messages_to_summarize = other_messages (messages cm) in
        if messages_to_summarize = [] then Inl (ValueError NothingToSummarize)
        else
          case summarizer_func messages_to_summarize of
            Inl e \<Rightarrow> Inl (SummarizerRaised e)
          | Inr summary \<Rightarrow>
              (case Message System (summary_prefix @ summary) None now of
                 Inl v \<Rightarrow> Inl (ValidationError v)
               | Inr summary_message \<Rightarrow>
                   Inr (summary,
                        cm\<lparr>messages := system_messages (messages cm) @ [summary_message]\<rparr>)))"

subsection \<open>Retrieval with explicit list objects\<close>

text \<open>
  \<open>get_context\<close> with its list objects made explicit. Python lists are mutable objects reached
  through references: \<open>self.messages\<close> is a reference, the two comprehensions and \<open>copy()\<close>
  allocate new lists, \<open>append\<close> and \<open>sort\<close> change a list in place. The state holds the
  attributes of the \<open>ContextManager\<close> and a heap of list objects; \<open>next_ref\<close> is the next
  unused reference.
\<close>

type_synonym ref = nat

record py_state =
  self_messages :: ref
  self_max_messages :: int
  self_model_name :: pystr
  heap :: "ref \<rightharpoonup> message list"
  next_ref :: ref

definition list_of :: "py_state \<Rightarrow> ref \<Rightarrow> message list" where
  "list_of st r = (case heap st r of Some xs \<Rightarrow> xs | None \<Rightarrow> [])"

definition new_list :: "message list \<Rightarrow> py_state \<Rightarrow> ref \<times> py_state" where
  "new_list xs st =
     (next_ref st, st\<lparr>heap := (heap st)(next_ref st \<mapsto> xs), next_ref := Suc (next_ref st)\<rparr>)"

definition list_append :: "ref \<Rightarrow> message \<Rightarrow> py_state \<Rightarrow> py_state" where
  "list_append r m st = st\<lparr>heap := (heap st)(r \<mapsto> list_of st r @ [m])\<rparr>"

definition list_sort :: "ref \<Rightarrow> py_state \<Rightarrow> py_state" where
  "list_sort r st = st\<lparr>heap := (heap st)(r \<mapsto> sort_key sort_key_of (list_of st r))\<rparr>"

fun select_recent_h :: "(pystr \<Rightarrow> nat) \<Rightarrow> int \<Rightarrow> ref \<Rightarrow> int \<Rightarrow> message list \<Rightarrow> py_state
    \<Rightarrow> py_state" where
  "select_recent_h enc max_tokens r tokens [] st = st"
| "select_recent_h enc max_tokens r tokens (m # ms) st =
     (if tokens + count_message_tokens enc m \<le> max_tokens
      then select_recent_h enc max_tokens r (tokens + count_message_tokens enc m) ms
             (list_append r m st)
      else st)"

definition get_context_h :: "(pystr \<Rightarrow> nat) \<Rightarrow> int \<Rightarrow> py_state \<Rightarrow> ref \<times> py_state" where
  "get_context_h enc max_tokens st =
     (if list_of st (self_messages st) = [] then new_list [] st
      else
        let (system_ref, st1) =
              new_list (filter (\<lambda>m. role m = System) (list_of st (self_messages st))) st;
            (other_ref, st2) =
              new_list (filter (\<lambda>m. role m \<noteq> System) (list_of st1 (self_messages st1))) st1;
            tokens = total_cost enc (list_of st2 system_ref);
            (result_ref, st3) = new_list (list_of st2 system_ref) st2;
            st4 = select_recent_h enc max_tokens result_ref tokens
                    (rev (list_of st3 other_ref)) st3;
            st5 = list_sort result_ref st4
        in (result_ref, st5))"

text \<open>The window that a state holds, as the value-level record.\<close>

definition window_of :: "py_state \<Rightarrow> context_manager" where
  "window_of st = \<lparr>messages = list_of st (self_messages st),
     max_messages = self_max_messages st, model_name = self_model_name st\<rparr>"

section \<open>Saving and loading a window (agent/context_manager.py)\<close>

text \<open>
  JSON documents as Python holds them after \<open>json.load\<close> and before \<open>json.dump\<close>: \<open>None\<close>,
  integers, strings, lists and dictionaries (in insertion order). A file holds a document or
  text that is not JSON; writing a document and reading it back gives the same document.
\<close>

datatype json = JNull | JInt int | JStr pystr | JArr "json list" | JObj "(pystr \<times> json) list"

datatype file_content = Document json | NotJson

record file_system =
  files :: "pystr \<rightharpoonup> file_content"
  unwritable :: "pystr \<Rightarrow> bool"
  unreadable :: "pystr \<Rightarrow> bool"

datatype save_error = IOError

text \<open>Exceptions of \<open>load_from_file\<close>: the file is missing; \<open>ValueError\<close> raised for a
  \<open>JSONDecodeError\<close> or a \<open>KeyError\<close>; and the exceptions the handler does not catch: a
  \<open>ValidationError\<close> of \<open>Message\<close>, a \<open>TypeError\<close> or \<open>AttributeError\<close> for a document or an entry
  of the wrong shape, and an \<open>OSError\<close> of \<open>exists()\<close> or \<open>open()\<close> for a path in \<open>unreadable\<close>.\<close>

datatype load_error =
  FileNotFoundError | MalformedFile | MessageInvalid validation_error | WrongShape | OSError

definition metadata_json :: "(pystr \<times> pystr) list option \<Rightarrow> json" where
  "metadata_json md = (case md of None \<Rightarrow> JNull | Some kv \<Rightarrow> JObj (map (\<lambda>(k, v). (k, JStr v)) kv))"

text \<open>\<open>isoformat\<close> stands for \<open>datetime.isoformat\<close> of the standard library.\<close>

definition message_json :: "(int \<Rightarrow> pystr) \<Rightarrow> message \<Rightarrow> json" where
  "message_json isoformat msg =
     JObj [(str ''role'', JStr (role_str (role msg))),
           (str ''content'', JStr (content msg)),
           (str ''timestamp'', JStr (isoformat (timestamp msg))),
           (str ''metadata'', metadata_json (metadata msg))]"

definition window_json :: "(int \<Rightarrow> pystr) \<Rightarrow> context_manager \<Rightarrow> json" where
  "window_json isoformat cm =
     JObj [(str ''model_name'', JStr (model_name cm)),
           (str ''max_messages'', JInt (max_messages cm)),
           (str ''messages'', JArr (map (message_json isoformat) (messages cm)))]"

definition save_to_file ::
  "(int \<Rightarrow> pystr) \<Rightarrow> context_manager \<Rightarrow> pystr \<Rightarrow> file_system \<Rightarrow> save_error + file_system" where
  "save_to_file isoformat cm filepath fs =
     (if unwritable fs filepath then Inl IOError
      else Inr (fs\<lparr>files := (files fs)(filepath \<mapsto> Document (window_json isoformat cm))\<rparr>))"

text \<open>Validation of the fields of \<open>Message\<close>: \<open>role\<close> is one of three literals, \<open>content\<close> a
  string, \<open>metadata\<close> is \<open>None\<close> or a dictionary of strings.\<close>

definition parse_role :: "json \<Rightarrow> role option" where
  "parse_role j =
     (case j of
        JStr s \<Rightarrow> (if s = str ''user'' then Some User
                   else if s = str ''assistant'' then Some Assistant
                   else if s = str ''system'' then Some System
                   else None)
      | _ \<Rightarrow> None)"

fun parse_metadata_items :: "(pystr \<times> json) list \<Rightarrow> (pystr \<times> pystr) list option" where
  "parse_metadata_items [] = Some []"
| "parse_metadata_items ((k, JStr v) # kv) =
     (case parse_metadata_items kv of None \<Rightarrow> None | Some r \<Rightarrow> Some ((k, v) # r))"
| "parse_metadata_items ((k, _) # kv) = None"

definition parse_metadata :: "json option \<Rightarrow> (pystr \<times> pystr) list option option" where
  "parse_metadata j =
     (case j of
        None \<Rightarrow> Some None
      | Some JNull \<Rightarrow> Some None
      | Some (JObj kv) \<Rightarrow> (case parse_metadata_items kv of None \<Rightarrow> None | Some r \<Rightarrow> Some (Some r))
      | Some _ \<Rightarrow> None)"

text \<open>One step of the list comprehension of \<open>load_from_file\<close>:
  \<open>Message(role=msg["role"], content=msg["content"], metadata=msg.get("metadata"))\<close>.\<close>

definition load_message :: "int \<Rightarrow> json \<Rightarrow> load_error + message" where
  "load_message now msg =
     (case msg of
        JObj kv \<Rightarrow>
          (case map_of kv (str ''role'') of
             None \<Rightarrow> Inl MalformedFile
           | Some r \<Rightarrow>
               (case map_of kv (str ''content'') of
                  None \<Rightarrow> Inl MalformedFile
                | Some c \<Rightarrow>
                    (case parse_role r of
                       None \<Rightarrow> Inl (MessageInvalid BadRole)
                     | Some r' \<Rightarrow>
                         (case c of
                            JStr c' \<Rightarrow>
                              (case parse_metadata (map_of kv (str ''metadata'')) of
                                 None \<Rightarrow> Inl (MessageInvalid BadField)
                               | Some md \<Rightarrow>
                                   (case Message r' c' md now of
                                      Inl e \<Rightarrow> Inl (MessageInvalid e)
                                    | Inr m \<Rightarrow> Inr m))
                          | _ \<Rightarrow> Inl (MessageInvalid BadField)))))
      | _ \<Rightarrow> Inl WrongShape)"

text \<open>The comprehension over \<open>data["messages"]\<close>; the \<open>i\<close>-th message is built at time
  \<open>now_at i\<close>. The first exception ends it.\<close>

fun load_messages :: "(nat \<Rightarrow> int) \<Rightarrow> nat \<Rightarrow> json list \<Rightarrow> load_error + message list" where
  "load_messages now_at i [] = Inr []"
| "load_messages now_at i (j # js) =
     (case load_message (now_at i) j of
        Inl e \<Rightarrow> Inl e
      | Inr m \<Rightarrow>
          (case load_messages now_at (Suc i) js of
             Inl e \<Rightarrow> Inl e
           | Inr ms \<Rightarrow> Inr (m # ms)))"

text \<open>Iterating over a JSON value as Python does: a list gives its elements, a dictionary
  its keys, a string its characters; \<open>None\<close> and integers are not iterable.\<close>

definition iterate :: "json \<Rightarrow> load_error + json list" where
  "iterate j =
     (case j of
        JArr xs \<Rightarrow> Inr xs
      | JObj kv \<Rightarrow> Inr (map (\<lambda>(k, v). JStr k) kv)
      | JStr s \<Rightarrow> Inr (map (\<lambda>c. JStr [c]) s)
      | _ \<Rightarrow> Inl WrongShape)"

text \<open>The attributes of a \<open>ContextManager\<close> as \<open>load_from_file\<close> leaves them. It assigns to
  \<open>model_name\<close> and \<open>max_messages\<close> whatever value the document holds under these keys, of
  any type, so the two are JSON values here; \<open>attributes\<close> gives those of a window whose
  attributes have their declared types, \<open>typed_window\<close> goes back.\<close>

record loaded_window =
  loaded_model_name :: json
  loaded_max_messages :: json
  loaded_messages :: "message list"

definition attributes :: "context_manager \<Rightarrow> loaded_window" where
  "attributes cm = \<lparr>loaded_model_name = JStr (model_name cm),
     loaded_max_messages = JInt (max_messages cm), loaded_messages = messages cm\<rparr>"

definition typed_window :: "loaded_window \<Rightarrow> context_manager option" where
  "typed_window w =
     (case (loaded_model_name w, loaded_max_messages w) of
        (JStr s, JInt n) \<Rightarrow> Some \<lparr>messages = loaded_messages w, max_messages = n, model_name = s\<rparr>
      | _ \<Rightarrow> None)"

text \<open>\<open>load_from_file\<close> returns the exception, if any, and the attributes after the call:
  \<open>model_name\<close> and \<open>max_messages\<close> are assigned before the messages are read, so they keep
  their new values when reading the messages fails.\<close>

definition load_from_file ::
  "(nat \<Rightarrow> int) \<Rightarrow> context_manager \<Rightarrow> pystr \<Rightarrow> file_system
    \<Rightarrow> load_error option \<times> loaded_window" where
  "load_from_file now_at cm filepath fs =
     (if unreadable fs filepath then (Some OSError, attributes cm)
      else
        case files fs filepath of
          None \<Rightarrow> (Some FileNotFoundError, attributes cm)
        | Some NotJson \<Rightarrow> (Some MalformedFile, attributes cm)
        | Some (Document (JObj data)) \<Rightarrow>
            (let named = (attributes cm)\<lparr>loaded_model_name :=
                   (case map_of data (str ''model_name'') of
                      None \<Rightarrow> JStr (model_name cm) | Some v \<Rightarrow> v)\<rparr>;
                 sized = named\<lparr>loaded_max_messages :=
                   (case map_of data (str ''max_messages'') of
                      None \<Rightarrow> JInt (max_messages cm) | Some v \<Rightarrow> v)\<rparr>
             in case map_of data (str ''messages'') of
                  None \<Rightarrow> (Some MalformedFile, sized)
                | Some items \<Rightarrow>
                    (case iterate items of
                       Inl e \<Rightarrow> (Some e, sized)
                     | Inr js \<Rightarrow>
                         (case load_messages now_at 0 js of
                            Inl e \<Rightarrow> (Some e, sized)
                          | Inr ms \<Rightarrow> (None, sized\<lparr>loaded_messages := ms\<rparr>))))
        | Some (Document _) \<Rightarrow> (Some WrongShape, attributes cm))"

text \<open>The turns of a window with the \<open>i\<close>-th timestamp replaced by the clock reading at
  which \<open>load_from_file\<close> builds the \<open>i\<close>-th message.\<close>

fun restamp :: "(nat \<Rightarrow> int) \<Rightarrow> nat \<Rightarrow> message list \<Rightarrow> message list" where
  "restamp now_at i [] = []"
| "restamp now_at i (m # ms) = m\<lparr>timestamp := now_at i\<rparr> # restamp now_at (Suc i) ms"

section \<open>Sessions (agent/state_manager.py)\<close>

text \<open>
  \<open>AgentState\<close>, with the conversation reduced to its messages. \<open>is_expired\<close> reads the clock,
  passed as \<open>now\<close>.
\<close>

record agent_state =
  session_id :: pystr
  user_id :: "pystr option"
  conversation :: "message list"
  user_preferences :: "(pystr \<times> json) list"
  plugin_data :: "(pystr \<times> json) list"
  created_at :: int
  updated_at :: int
  expires_at :: "int option"

definition is_expired :: "int \<Rightarrow> agent_state \<Rightarrow> bool" where
  "is_expired now state = (case expires_at state of None \<Rightarrow> False | Some e \<Rightarrow> now > e)"

text \<open>The exceptions: \<open>NotFoundError\<close> with the three messages the code raises it with
  (session expired, session not found, storage key not found); \<open>StorageError\<close>, which
  \<open>JSONStorage\<close> raises for a failed read or unlink; the \<open>OSError\<close> that \<open>Path.exists()\<close> raises
  outside every handler (for a name that is too long, say); and whatever
  \<open>AgentState.from_dict\<close> raises on a document, with its message.\<close>

datatype not_found = SessionExpired | SessionMissing | KeyMissing

datatype session_error =
  NotFoundError not_found | StorageError | PathError | FromDictRaised pystr

text \<open>\<open>JSONStorage\<close>: one document per key, in the file named by the key with both path
  separators replaced by an underscore. Three predicates on file names stand for the
  environment: \<open>exists_raises\<close> where \<open>Path.exists()\<close> raises, \<open>unreadable\<close> where opening or
  parsing the file fails, \<open>undeletable\<close> where \<open>unlink()\<close> fails.\<close>

record json_storage =
  stored :: "pystr \<rightharpoonup> json"
  exists_raises :: "pystr \<Rightarrow> bool"
  unreadable_file :: "pystr \<Rightarrow> bool"
  undeletable :: "pystr \<Rightarrow> bool"

definition get_file_path :: "pystr \<Rightarrow> pystr" where
  "get_file_path key = map (\<lambda>c. if c = 47 \<or> c = 92 then 95 else c) key"

definition storage_load :: "json_storage \<Rightarrow> pystr \<Rightarrow> session_error + json" where
  "storage_load st key =
     (if exists_raises st (get_file_path key) then Inl PathError
      else
        case stored st (get_file_path key) of
          None \<Rightarrow> Inl (NotFoundError KeyMissing)
        | Some d \<Rightarrow> if unreadable_file st (get_file_path key) then Inl StorageError else Inr d)"

definition storage_delete :: "json_storage \<Rightarrow> pystr \<Rightarrow> session_error option \<times> json_storage" where
  "storage_delete st key =
     (if exists_raises st (get_file_path key) then (Some PathError, st)
      else
        case stored st (get_file_path key) of
          None \<Rightarrow> (Some (NotFoundError KeyMissing), st)
        | Some d \<Rightarrow>
            if undeletable st (get_file_path key) then (Some StorageError, st)
            else (None, st\<lparr>stored := (stored st)(get_file_path key := None)\<rparr>))"

definition storage_exists :: "json_storage \<Rightarrow> pystr \<Rightarrow> session_error + bool" where
  "storage_exists st key =
     (if exists_raises st (get_file_path key) then Inl PathError
      else Inr (stored st (get_file_path key) \<noteq> None))"

record state_manager =
  sessions :: "pystr \<rightharpoonup> agent_state"
  storage :: json_storage

text \<open>\<open>delete_session\<close> returns the exception raised, if any, and the manager after the call.
  The test in the handler reads \<open>self.sessions\<close> after the entry has been deleted from it.
  Only \<open>NotFoundError\<close> is handled; the other exceptions of \<open>storage.delete\<close> leave the call as
  they are.\<close>

definition delete_session :: "state_manager \<Rightarrow> pystr \<Rightarrow> session_error option \<times> state_manager" where
  "delete_session m sid =
     (let m1 = (if sessions m sid \<noteq> None then m\<lparr>sessions := (sessions m)(sid := None)\<rparr> else m)
      in case storage_delete (storage m1) sid of
           (None, st') \<Rightarrow> (None, m1\<lparr>storage := st'\<rparr>)
         | (Some (NotFoundError r), st') \<Rightarrow>
             if sessions m1 sid = None then (Some (NotFoundError SessionMissing), m1)
             else (None, m1)
         | (Some e, st') \<Rightarrow> (Some e, m1))"

text \<open>\<open>get_session\<close>; \<open>from_dict\<close> stands for \<open>AgentState.from_dict\<close>, which rests on the
  validation of a library outside the repository. In the second half every \<open>NotFoundError\<close>
  raised inside the \<open>try\<close> is caught and raised again as "session not found"; no other
  exception is handled.\<close>

definition get_session ::
  "(json \<Rightarrow> pystr + agent_state) \<Rightarrow> int \<Rightarrow> state_manager \<Rightarrow> pystr
    \<Rightarrow> (session_error + agent_state) \<times> state_manager" where
  "get_session from_dict now m sid =
     (case sessions m sid of
        Some state \<Rightarrow>
          if is_expired now state then
            (case delete_session m sid of
               (Some e, m') \<Rightarrow> (Inl e, m')
             | (None, m') \<Rightarrow> (Inl (NotFoundError SessionExpired), m'))
          else (Inr state, m)
      | None \<Rightarrow>
          (case storage_load (storage m) sid of
             Inl (NotFoundError r) \<Rightarrow> (Inl (NotFoundError SessionMissing), m)
           | Inl e \<Rightarrow> (Inl e, m)
           | Inr data \<Rightarrow>
               (case from_dict data of
                  Inl x \<Rightarrow> (Inl (FromDictRaised x), m)
                | Inr state \<Rightarrow>
                    if is_expired now state then
                      (case delete_session m sid of
                         (Some (NotFoundError r), m') \<Rightarrow> (Inl (NotFoundError SessionMissing), m')
                       | (Some e, m') \<Rightarrow> (Inl e, m')
                       | (None, m') \<Rightarrow> (Inl (NotFoundError SessionMissing), m'))
                    else (Inr state, m\<lparr>sessions := (sessions m)(sid \<mapsto> state)\<rparr>))))"

section \<open>Plugins (agent/plugins/base.py)\<close>

text \<open>
  Exceptions. What the code of a plugin raises is either an instance of \<open>Exception\<close>
  (\<open>Raised\<close>, with its message) or of another subclass of \<open>BaseException\<close>, such as
  \<open>KeyboardInterrupt\<close> or \<open>SystemExit\<close> (\<open>RaisedBase\<close>). \<open>AttributeError\<close> is raised for a
  plugin without the attribute \<open>enabled\<close>. \<open>PluginError\<close> carries the reason the manager
  raises it for and the exception it was raised from; \<open>PluginExecutionError\<close> wraps the
  exception of \<open>execute\<close>. Every handler of the manager is \<open>except Exception\<close>: it catches
  the exceptions for which \<open>is_exception\<close> holds and lets the others pass.
\<close>

datatype plugin_failure =
  MissingAttribute | InvalidSchema | SchemaCheckFailed | RegistrationFailed |
  PluginNotFound | PluginDisabled

datatype exn =
  Raised pystr
| RaisedBase pystr
| AttributeError
| PluginError plugin_failure "exn option"
| PluginExecutionError exn

fun is_exception :: "exn \<Rightarrow> bool" where
  "is_exception (RaisedBase msg) = False"
| "is_exception e = True"

type_synonym pydict = "(pystr \<times> json) list"

text \<open>A plugin, by what its members give: each property and method returns a value or
  raises. \<open>enabled\<close> is the attribute that \<open>BasePlugin.__init__\<close> sets to \<open>True\<close>; it is \<open>None\<close>
  for a plugin whose own \<open>__init__\<close> does not call that of \<open>BasePlugin\<close>.\<close>

record plugin =
  name :: "exn + pystr"
  description :: "exn + pystr"
  version :: "exn + pystr"
  get_schema :: "exn + json"
  initialize :: "exn option"
  execute :: "pydict \<Rightarrow> exn + pydict"
  enabled :: "bool option"

text \<open>The manager: the dictionary of plugins, and a record of the calls made to
  \<open>plugin.execute\<close>, kept to tell which calls the manager makes.\<close>

record plugin_manager =
  plugins :: "pystr \<rightharpoonup> plugin"
  executed :: "(pystr \<times> pydict) list"

text \<open>The schema test of \<open>_validate_plugin\<close>: a dictionary with the key \<open>name\<close>.\<close>

definition schema_ok :: "json \<Rightarrow> bool" where
  "schema_ok schema = (case schema of JObj kv \<Rightarrow> map_of kv (str ''name'') \<noteq> None | _ \<Rightarrow> False)"

text \<open>\<open>_validate_plugin\<close> returns the exception it raises, if any. The argument is a
  \<open>BasePlugin\<close> by its type, so the \<open>isinstance\<close> test passes; the three properties are read
  (not compared with anything), then the schema is tested. The \<open>PluginError\<close> raised for a
  bad schema is itself caught by the second handler and wrapped.\<close>

definition missing_attribute :: "exn \<Rightarrow> exn" where
  "missing_attribute e = (if is_exception e then PluginError MissingAttribute (Some e) else e)"

definition schema_check_failed :: "exn \<Rightarrow> exn" where
  "schema_check_failed e = (if is_exception e then PluginError SchemaCheckFailed (Some e) else e)"

definition validate_plugin :: "plugin \<Rightarrow> exn option" where
  "validate_plugin p =
     (case name p of
        Inl e \<Rightarrow> Some (missing_attribute e)
      | Inr _ \<Rightarrow>
     (case description p of
        Inl e \<Rightarrow> Some (missing_attribute e)
      | Inr _ \<Rightarrow>
     (case version p of
        Inl e \<Rightarrow> Some (missing_attribute e)
      | Inr _ \<Rightarrow>
     (case get_schema p of
        Inl e \<Rightarrow> Some (schema_check_failed e)
      | Inr schema \<Rightarrow>
          if \<not> schema_ok schema
          then Some (schema_check_failed (PluginError InvalidSchema None))
          else None))))"

text \<open>The handler of \<open>register_plugin\<close>: an exception that is not an \<open>Exception\<close> passes; for
  the others the handler formats \<open>plugin.name\<close> into its log message before it raises, so a
  failing \<open>name\<close> property raises from the handler.\<close>

definition registration_handler :: "plugin \<Rightarrow> exn \<Rightarrow> exn" where
  "registration_handler p e =
     (if is_exception e
      then (case name p of Inl e' \<Rightarrow> e' | Inr _ \<Rightarrow> PluginError RegistrationFailed (Some e))
      else e)"

text \<open>\<open>register_plugin\<close> returns the exception it raises, if any, and the manager after the
  call. The body of its \<open>try\<close>: validation, the test for a plugin of the same name (which reads
  \<open>name\<close>), \<open>initialize()\<close>, the assignment to the dictionary, and the log call, which reads
  \<open>name\<close>, \<open>version\<close> and \<open>enabled\<close> after the plugin has been stored.\<close>

definition register_plugin :: "plugin_manager \<Rightarrow> plugin \<Rightarrow> exn option \<times> plugin_manager" where
  "register_plugin m p =
     (case validate_plugin p of
        Some e \<Rightarrow> (Some (registration_handler p e), m)
      | None \<Rightarrow>
          (case name p of
             Inl e \<Rightarrow> (Some (registration_handler p e), m)
           | Inr n \<Rightarrow>
               (case initialize p of
                  Some e \<Rightarrow> (Some (registration_handler p e), m)
                | None \<Rightarrow>
                    (let m' = m\<lparr>plugins := (plugins m)(n \<mapsto> p)\<rparr> in
                     case version p of
                       Inl e \<Rightarrow> (Some (registration_handler p e), m')
                     | Inr _ \<Rightarrow>
                         (case enabled p of
                            None \<Rightarrow> (Some (registration_handler p AttributeError), m')
                          | Some _ \<Rightarrow> (None, m'))))))"

definition get_plugin :: "plugin_manager \<Rightarrow> pystr \<Rightarrow> exn + plugin" where
  "get_plugin m n =
     (case plugins m n of None \<Rightarrow> Inl (PluginError PluginNotFound None) | Some p \<Rightarrow> Inr p)"

definition enable_plugin :: "plugin_manager \<Rightarrow> pystr \<Rightarrow> exn option \<times> plugin_manager" where
  "enable_plugin m n =
     (case get_plugin m n of
        Inl e \<Rightarrow> (Some e, m)
      | Inr p \<Rightarrow> (None, m\<lparr>plugins := (plugins m)(n \<mapsto> p\<lparr>enabled := Some True\<rparr>)\<rparr>))"

definition disable_plugin :: "plugin_manager \<Rightarrow> pystr \<Rightarrow> exn option \<times> plugin_manager" where
  "disable_plugin m n =
     (case get_plugin m n of
        Inl e \<Rightarrow> (Some e, m)
      | Inr p \<Rightarrow> (None, m\<lparr>plugins := (plugins m)(n \<mapsto> p\<lparr>enabled := Some False\<rparr>)\<rparr>))"

text \<open>\<open>execute_plugin\<close>: the lookup and the test of \<open>enabled\<close> are outside the \<open>try\<close>; the call
  of \<open>execute\<close> is inside, and the handler wraps an \<open>Exception\<close> and lets any other pass.\<close>

definition execute_plugin ::
  "plugin_manager \<Rightarrow> pystr \<Rightarrow> pydict \<Rightarrow> (exn + pydict) \<times> plugin_manager" where
  "execute_plugin m n context =
     (case plugins m n of
        None \<Rightarrow> (Inl (PluginError PluginNotFound None), m)
      | Some p \<Rightarrow>
          (case enabled p of
             None \<Rightarrow> (Inl AttributeError, m)
           | Some False \<Rightarrow> (Inl (PluginError PluginDisabled None), m)
           | Some True \<Rightarrow>
               (case execute p context of
                  Inl e \<Rightarrow>
                    (Inl (if is_exception e then PluginExecutionError e else e),
                     m\<lparr>executed := executed m @ [(n, context)]\<rparr>)
                | Inr result \<Rightarrow> (Inr result, m\<lparr>executed := executed m @ [(n, context)]\<rparr>))))"

section \<open>Example values\<close>

definition u1 :: message where
  "u1 = \<lparr>role = User, content = str ''hello'', timestamp = 1, metadata = None\<rparr>"

definition a1 :: message where
  "a1 = \<lparr>role = Assistant, content = str ''hi there'', timestamp = 2, metadata = None\<rparr>"

definition s1 :: message where
  "s1 = \<lparr>role = System, content = str ''be brief'', timestamp = 3, metadata = None\<rparr>"

definition s2 :: message where
  "s2 = \<lparr>role = System, content = str ''be kind'', timestamp = 4, metadata = None\<rparr>"

definition char_tokens :: "pystr \<Rightarrow> nat" where
  "char_tokens t = length t"

definition window_usa :: context_manager where
  "window_usa = \<lparr>messages = [u1, s1, a1], max_messages = 10, model_name = str ''gpt-4''\<rparr>"

definition window_ss :: context_manager where
  "window_ss = \<lparr>messages = [s1, s2], max_messages = 10, model_name = str ''gpt-4''\<rparr>"

definition summarizer_S :: "message list \<Rightarrow> unit + pystr" where
  "summarizer_S ms = Inr (str ''S'')"

definition summarizer_S_space :: "message list \<Rightarrow> unit + pystr" where
  "summarizer_S_space ms = Inr (str ''S '')"

definition state_usa :: py_state where
  "state_usa = \<lparr>self_messages = 0, self_max_messages = 10, self_model_name = str ''gpt-4'',
     heap = [0 \<mapsto> [u1, s1, a1]], next_ref = 1\<rparr>"

definition empty_fs :: file_system where
  "empty_fs = \<lparr>files = Map.empty, unwritable = (\<lambda>p. False), unreadable = (\<lambda>p. False)\<rparr>"

definition window_u :: context_manager where
  "window_u = \<lparr>messages = [u1], max_messages = 10, model_name = str ''gpt-4''\<rparr>"

definition saved_fs :: "(int \<Rightarrow> pystr) \<Rightarrow> file_system" where
  "saved_fs isoformat = empty_fs\<lparr>files := [str ''c.json'' \<mapsto> Document (window_json isoformat window_u)]\<rparr>"

definition session_a :: agent_state where
  "session_a = \<lparr>session_id = str ''a'', user_id = Some (str ''u1''), conversation = [],
     user_preferences = [], plugin_data = [], created_at = 0, updated_at = 0,
     expires_at = Some 3600\<rparr>"

definition working_disk :: "(pystr \<rightharpoonup> json) \<Rightarrow> json_storage" where
  "working_disk docs = \<lparr>stored = docs, exists_raises = (\<lambda>p. False),
     unreadable_file = (\<lambda>p. False), undeletable = (\<lambda>p. False)\<rparr>"

definition memory_only :: state_manager where
  "memory_only = \<lparr>sessions = [str ''a'' \<mapsto> session_a], storage = working_disk Map.empty\<rparr>"

definition memory_and_store :: state_manager where
  "memory_and_store = \<lparr>sessions = [str ''a'' \<mapsto> session_a],
     storage = working_disk [str ''a'' \<mapsto> JObj []]\<rparr>"

definition store_only :: state_manager where
  "store_only = \<lparr>sessions = Map.empty, storage = working_disk [str ''a'' \<mapsto> JObj []]\<rparr>"

definition read_only_disk :: state_manager where
  "read_only_disk = \<lparr>sessions = [str ''a'' \<mapsto> session_a],
     storage = (working_disk [str ''a'' \<mapsto> JObj []])\<lparr>undeletable := (\<lambda>p. True)\<rparr>\<rparr>"

definition from_dict_a :: "json \<Rightarrow> pystr + agent_state" where
  "from_dict_a d = Inr session_a"

definition no_plugins :: plugin_manager where
  "no_plugins = \<lparr>plugins = Map.empty, executed = []\<rparr>"

definition calc :: plugin where
  "calc = \<lparr>name = Inr (str ''calc''), description = Inr (str ''calculator''),
     version = Inr (str ''1.0.0''),
     get_schema = Inr (JObj [(str ''name'', JStr (str ''calc''))]),
     initialize = None,
     execute = (\<lambda>context. Inr [(str ''result'', JInt 5)]),
     enabled = Some True\<rparr>"

definition nameless :: plugin where
  "nameless = calc\<lparr>name := Inr [], description := Inr [], version := Inr []\<rparr>"

definition no_schema_name :: plugin where
  "no_schema_name = calc\<lparr>get_schema := Inr (JObj [(str ''description'', JStr (str ''calc''))])\<rparr>"

definition interrupted_init :: plugin where
  "interrupted_init = calc\<lparr>initialize := Some (RaisedBase (str ''KeyboardInterrupt''))\<rparr>"

definition interrupted :: plugin where
  "interrupted = calc\<lparr>execute := (\<lambda>context. Inl (RaisedBase (str ''KeyboardInterrupt'')))\<rparr>"

definition with_calc :: plugin_manager where
  "with_calc = \<lparr>plugins = [str ''calc'' \<mapsto> calc], executed = []\<rparr>"

definition with_interrupted :: plugin_manager where
  "with_interrupted = \<lparr>plugins = [str ''calc'' \<mapsto> interrupted], executed = []\<rparr>"

section \<open>Appending to the window\<close>

lemma other_pop_length:
  "length (other_messages (pop_first_other ms)) = length (other_messages ms) - 1"
  by (induction ms) (auto simp: other_messages_def)

lemma system_pop: "system_messages (pop_first_other ms) = system_messages ms"
  by (induction ms) (auto simp: system_messages_def)

lemma pop_first_other_decomp:
  "other_messages ms \<noteq> [] \<Longrightarrow>
   \<exists>pre x post. ms = pre @ x # post \<and> (\<forall>y \<in> set pre. role y = System) \<and> role x \<noteq> System \<and>
     pop_first_other ms = pre @ post"
proof (induction ms)
  case Nil
  then show ?case by (simp add: other_messages_def)
next
  case (Cons m ms)
  show ?case
  proof (cases "role m = System")
    case True
    with Cons.prems have "other_messages ms \<noteq> []" by (simp add: other_messages_def)
    from Cons.IH[OF this] obtain pre x post where
      h: "ms = pre @ x # post" "\<forall>y \<in> set pre. role y = System" "role x \<noteq> System"
         "pop_first_other ms = pre @ post" by blast
    have "m # ms = (m # pre) @ x # post \<and> (\<forall>y \<in> set (m # pre). role y = System) \<and>
       role x \<noteq> System \<and> pop_first_other (m # ms) = (m # pre) @ post"
      using h True by simp
    then show ?thesis by blast
  next
    case False
    have "m # ms = [] @ m # ms \<and> (\<forall>y \<in> set []. role y = System) \<and> role m \<noteq> System \<and>
       pop_first_other (m # ms) = [] @ ms"
      using False by simp
    then show ?thesis by blast
  qed
qed

lemma count_after_add:
  assumes "int (length (other_messages (messages cm))) \<le> max_messages cm"
  shows "int (length (other_messages (messages (add_to_context cm m)))) =
     min (int (length (other_messages (messages cm))) + int (length (other_messages [m])))
         (max_messages cm)"
proof -
  have app: "other_messages (messages cm @ [m]) = other_messages (messages cm) @ other_messages [m]"
    by (simp add: other_messages_def)
  show ?thesis
  proof (cases "int (length (other_messages (messages cm @ [m]))) > max_messages cm")
    case True
    then have "messages (add_to_context cm m) = pop_first_other (messages cm @ [m])"
      by (simp add: add_to_context_def Let_def)
    then have "length (other_messages (messages (add_to_context cm m))) =
        length (other_messages (messages cm @ [m])) - 1"
      by (simp add: other_pop_length)
    then show ?thesis using True assms by (cases "role m = System") (simp_all add: app other_messages_def)
  next
    case False
    then have "messages (add_to_context cm m) = messages cm @ [m]"
      by (simp add: add_to_context_def Let_def)
    then show ?thesis using False assms by (simp add: app)
  qed
qed

lemma max_messages_add [simp]: "max_messages (add_to_context cm m) = max_messages cm"
  by (simp add: add_to_context_def Let_def)

lemma model_name_add [simp]: "model_name (add_to_context cm m) = model_name cm"
  by (simp add: add_to_context_def Let_def)

lemma max_messages_add_all [simp]: "max_messages (add_all cm ms) = max_messages cm"
  by (induction ms arbitrary: cm) auto

lemma count_after_add_all:
  assumes "int (length (other_messages (messages cm))) \<le> max_messages cm"
  shows "int (length (other_messages (messages (add_all cm ms)))) =
     min (int (length (other_messages (messages cm))) + int (length (other_messages ms)))
         (max_messages cm)"
  using assms
proof (induction ms arbitrary: cm)
  case Nil
  then show ?case by (simp add: other_messages_def)
next
  case (Cons m ms)
  let ?cm = "add_to_context cm m"
  have step: "int (length (other_messages (messages ?cm))) =
     min (int (length (other_messages (messages cm))) + int (length (other_messages [m])))
         (max_messages cm)"
    by (rule count_after_add[OF Cons.prems])
  then have le: "int (length (other_messages (messages ?cm))) \<le> max_messages ?cm" by simp
  have "other_messages (m # ms) = other_messages [m] @ other_messages ms"
    by (simp add: other_messages_def)
  then have len: "int (length (other_messages (m # ms))) =
      int (length (other_messages [m])) + int (length (other_messages ms))" by simp
  show ?case
    using Cons.IH[OF le] step len by (simp add: min_def)
qed

lemma pop_first_other_none: "other_messages ms = [] \<Longrightarrow> pop_first_other ms = ms"
  by (induction ms) (auto simp: other_messages_def split: if_splits)

lemma add_to_context_evicts:
  "messages (add_to_context w m) = messages w @ [m] \<or>
   (\<exists>pre x post. messages w @ [m] = pre @ x # post \<and>
      (\<forall>y \<in> set pre. role y = System) \<and> role x \<noteq> System \<and>
      messages (add_to_context w m) = pre @ post)"
proof (cases "int (length (other_messages (messages w @ [m]))) > max_messages w")
  case False
  then show ?thesis by (simp add: add_to_context_def Let_def)
next
  case over: True
  then have eq: "messages (add_to_context w m) = pop_first_other (messages w @ [m])"
    by (simp add: add_to_context_def Let_def)
  show ?thesis
  proof (cases "other_messages (messages w @ [m]) = []")
    case True
    then show ?thesis using eq pop_first_other_none by simp
  next
    case False
    from pop_first_other_decomp[OF False] show ?thesis unfolding eq by blast
  qed
qed

lemma add_to_context_keeps_system:
  "system_messages (messages (add_to_context w m)) = system_messages (messages w @ [m])"
  by (simp add: add_to_context_def Let_def system_pop)

text \<open>
  Claim C2 (window-size invariant under append). Starting from an empty window whose limit
  \<open>max_messages\<close> is not negative, after each of a sequence of appends the number of non-system
  turns is the minimum of the number of non-system turns appended so far and the limit. For
  any window \<open>w\<close> and turn \<open>m\<close>, an append either keeps every turn or removes exactly one, the
  first non-system turn from the front, and the system turns are the same before and after.
\<close>

theorem window_size_invariant:
  assumes "messages cm = []" and "0 \<le> max_messages cm"
  shows "(\<forall>n \<le> length ms.
            int (length (other_messages (messages (add_all cm (take n ms))))) =
            min (int (length (other_messages (take n ms)))) (max_messages cm)) \<and>
         (messages (add_to_context w m) = messages w @ [m] \<or>
          (\<exists>pre x post. messages w @ [m] = pre @ x # post \<and>
             (\<forall>y \<in> set pre. role y = System) \<and> role x \<noteq> System \<and>
             messages (add_to_context w m) = pre @ post)) \<and>
         system_messages (messages (add_to_context w m)) = system_messages (messages w @ [m])"
proof -
  have start: "int (length (other_messages (messages cm))) \<le> max_messages cm"
    using assms by (simp add: other_messages_def)
  have "int (length (other_messages (messages (add_all cm (take n ms))))) =
        min (int (length (other_messages (take n ms)))) (max_messages cm)" for n
    using count_after_add_all[OF start, of "take n ms"] assms(1)
    by (simp add: other_messages_def)
  then show ?thesis
    using add_to_context_evicts[of w m] add_to_context_keeps_system[of w m] by blast
qed

theorem window_size_invariant_witness:
  "messages (init_context 1 (str ''gpt-4'')) = [] \<and> 0 \<le> max_messages (init_context 1 (str ''gpt-4'')) \<and>
   int (length (other_messages (messages (add_all (init_context 1 (str ''gpt-4'')) [u1, s1, a1])))) = 1 \<and>
   messages (add_all (init_context 1 (str ''gpt-4'')) [u1, s1, a1]) = [s1, a1]"
proof -
  let ?cm = "init_context 1 (str ''gpt-4'')"
  have h1: "messages ?cm = []" and h2: "0 \<le> max_messages ?cm"
    by (simp_all add: init_context_def)
  have "3 \<le> length [u1, s1, a1]" by simp
  with window_size_invariant[OF h1 h2, of "[u1, s1, a1]" ?cm u1]
  have "int (length (other_messages (messages (add_all ?cm (take 3 [u1, s1, a1]))))) =
        min (int (length (other_messages (take 3 [u1, s1, a1])))) (max_messages ?cm)"
    by blast
  then have c: "int (length (other_messages (messages (add_all ?cm [u1, s1, a1])))) = 1"
    by (simp add: other_messages_def u1_def s1_def a1_def init_context_def)
  have "messages (add_all ?cm [u1, s1, a1]) = [s1, a1]"
    by (simp add: init_context_def add_to_context_def Let_def other_messages_def u1_def s1_def a1_def)
  with h1 h2 c show ?thesis by simp
qed

section \<open>Retrieval from the window\<close>

lemma count_message_tokens_pos: "4 \<le> count_message_tokens enc m"
  by (simp add: count_message_tokens_def)

lemma total_cost_nonneg: "0 \<le> total_cost enc ms"
proof (induction ms)
  case Nil
  show ?case by (simp add: total_cost_def)
next
  case (Cons m ms)
  then show ?case using count_message_tokens_pos[of enc m] by (simp add: total_cost_def)
qed

lemma total_cost_Cons: "total_cost enc (m # ms) = count_message_tokens enc m + total_cost enc ms"
  by (simp add: total_cost_def)

lemma total_cost_mset: "total_cost enc ms = sum_mset (image_mset (count_message_tokens enc) (mset ms))"
  by (induction ms) (simp_all add: total_cost_def)

lemma select_recent_greedy:
  "\<exists>k \<le> length ms.
     select_recent enc B (res, tokens) ms = (res @ take k ms, tokens + total_cost enc (take k ms)) \<and>
     (\<forall>j < k. tokens + total_cost enc (take (Suc j) ms) \<le> B) \<and>
     (k < length ms \<longrightarrow> B < tokens + total_cost enc (take (Suc k) ms))"
proof (induction ms arbitrary: res tokens)
  case Nil
  show ?case by (simp add: total_cost_def)
next
  case (Cons m ms)
  let ?c = "count_message_tokens enc m"
  show ?case
  proof (cases "tokens + ?c \<le> B")
    case False
    then have "select_recent enc B (res, tokens) (m # ms) = (res @ take 0 (m # ms), tokens + total_cost enc (take 0 (m # ms))) \<and>
       (\<forall>j < (0::nat). tokens + total_cost enc (take (Suc j) (m # ms)) \<le> B) \<and>
       ((0::nat) < length (m # ms) \<longrightarrow> B < tokens + total_cost enc (take (Suc 0) (m # ms)))"
      by (simp add: total_cost_def)
    then show ?thesis by blast
  next
    case True
    from Cons.IH[of "res @ [m]" "tokens + ?c"] obtain k where k:
      "k \<le> length ms"
      "select_recent enc B (res @ [m], tokens + ?c) ms =
         ((res @ [m]) @ take k ms, tokens + ?c + total_cost enc (take k ms))"
      "\<forall>j < k. tokens + ?c + total_cost enc (take (Suc j) ms) \<le> B"
      "k < length ms \<longrightarrow> B < tokens + ?c + total_cost enc (take (Suc k) ms)"
      by blast
    have 1: "Suc k \<le> length (m # ms)" using k(1) by simp
    have 2: "select_recent enc B (res, tokens) (m # ms) =
        (res @ take (Suc k) (m # ms), tokens + total_cost enc (take (Suc k) (m # ms)))"
      using True k(2) by (simp add: total_cost_Cons add.assoc)
    have 3: "\<forall>j < Suc k. tokens + total_cost enc (take (Suc j) (m # ms)) \<le> B"
    proof (intro allI impI)
      fix j assume "j < Suc k"
      show "tokens + total_cost enc (take (Suc j) (m # ms)) \<le> B"
      proof (cases j)
        case 0
        then show ?thesis using True by (simp add: total_cost_def)
      next
        case (Suc i)
        then have "i < k" using \<open>j < Suc k\<close> by simp
        with k(3) have "tokens + ?c + total_cost enc (take (Suc i) ms) \<le> B" by blast
        then show ?thesis using Suc by (simp add: total_cost_Cons add.assoc)
      qed
    qed
    have 4: "Suc k < length (m # ms) \<longrightarrow> B < tokens + total_cost enc (take (Suc (Suc k)) (m # ms))"
      using k(4) by (simp add: total_cost_Cons add.assoc)
    from 1 2 3 4 show ?thesis by blast
  qed
qed

lemma sorted_get_context: "sorted (map sort_key_of (get_context enc cm B))"
  by (simp add: get_context_def Let_def split: prod.splits)

text \<open>
  Claim C4 (retrieval ordering). In the sequence returned by \<open>get_context\<close>, whenever a turn
  at a later position has role system so has every turn before it (all system turns come
  first, whatever their timestamps), and two turns that are both system or both non-system
  appear in timestamp order. An empty window yields the empty sequence.
\<close>

theorem retrieval_ordering:
  "(\<forall>i j. i < j \<and> j < length (get_context enc cm B) \<longrightarrow>
      (role (get_context enc cm B ! j) = System \<longrightarrow> role (get_context enc cm B ! i) = System) \<and>
      ((role (get_context enc cm B ! i) = System) = (role (get_context enc cm B ! j) = System) \<longrightarrow>
         timestamp (get_context enc cm B ! i) \<le> timestamp (get_context enc cm B ! j))) \<and>
   (messages cm = [] \<longrightarrow> get_context enc cm B = [])"
proof (intro conjI allI impI)
  let ?r = "get_context enc cm B"
  fix i j assume ij: "i < j \<and> j < length ?r"
  have "sorted (map sort_key_of ?r)" by (rule sorted_get_context)
  then have "map sort_key_of ?r ! i \<le> map sort_key_of ?r ! j"
    using ij by (simp add: sorted_iff_nth_mono)
  then have le: "sort_key_of (?r ! i) \<le> sort_key_of (?r ! j)" using ij by simp
  { assume "role (?r ! j) = System"
    then show "role (?r ! i) = System" using le by (auto simp: sort_key_of_def) }
  { assume "(role (?r ! i) = System) = (role (?r ! j) = System)"
    then show "timestamp (?r ! i) \<le> timestamp (?r ! j)" using le by (auto simp: sort_key_of_def) }
next
  assume "messages cm = []"
  then show "get_context enc cm B = []" by (simp add: get_context_def)
qed

lemma get_context_selection:
  "\<exists>k \<le> length (other_messages (messages cm)).
     mset (get_context enc cm B) =
       mset (system_messages (messages cm)) + mset (take k (rev (other_messages (messages cm)))) \<and>
     (\<forall>j < k. total_cost enc (system_messages (messages cm)) +
               total_cost enc (take (Suc j) (rev (other_messages (messages cm)))) \<le> B) \<and>
     (k < length (other_messages (messages cm)) \<longrightarrow>
        B < total_cost enc (system_messages (messages cm)) +
            total_cost enc (take (Suc k) (rev (other_messages (messages cm)))))"
proof (cases "messages cm = []")
  case True
  then show ?thesis by (simp add: get_context_def other_messages_def system_messages_def)
next
  case False
  let ?sys = "system_messages (messages cm)"
  let ?oth = "rev (other_messages (messages cm))"
  from select_recent_greedy[of ?oth enc B ?sys "total_cost enc ?sys"] obtain k where k:
    "k \<le> length ?oth"
    "select_recent enc B (?sys, total_cost enc ?sys) ?oth =
       (?sys @ take k ?oth, total_cost enc ?sys + total_cost enc (take k ?oth))"
    "\<forall>j < k. total_cost enc ?sys + total_cost enc (take (Suc j) ?oth) \<le> B"
    "k < length ?oth \<longrightarrow> B < total_cost enc ?sys + total_cost enc (take (Suc k) ?oth)"
    by blast
  have "get_context enc cm B = sort_key sort_key_of (?sys @ take k ?oth)"
    using False k(2) by (simp add: get_context_def Let_def)
  then have "mset (get_context enc cm B) = mset ?sys + mset (take k ?oth)" by simp
  with k(1,3,4) show ?thesis by auto
qed

text \<open>
  Claim C3 (token budget on retrieval), as amended. If the system turns together fit in the
  budget, the total cost of the returned turns does not exceed the budget; if the system turns
  together exceed it, exactly the system turns are returned. In every case the result consists
  of all system turns and the \<open>k\<close> most recent non-system turns, where each of these \<open>k\<close> turns
  fitted in the budget when it was added, and the next older turn, if there is one, did not.
  The cost of a turn is \<open>enc\<close> of its role, plus \<open>enc\<close> of its content, plus 4.
\<close>

theorem retrieval_budget_bound:
  "(total_cost enc (system_messages (messages cm)) \<le> B \<longrightarrow>
      total_cost enc (get_context enc cm B) \<le> B) \<and>
   (B < total_cost enc (system_messages (messages cm)) \<longrightarrow>
      mset (get_context enc cm B) = mset (system_messages (messages cm))) \<and>
   (\<exists>k \<le> length (other_messages (messages cm)).
      mset (get_context enc cm B) =
        mset (system_messages (messages cm)) + mset (take k (rev (other_messages (messages cm)))) \<and>
      (\<forall>j < k. total_cost enc (system_messages (messages cm)) +
                total_cost enc (take (Suc j) (rev (other_messages (messages cm)))) \<le> B) \<and>
      (k < length (other_messages (messages cm)) \<longrightarrow>
         B < total_cost enc (system_messages (messages cm)) +
             total_cost enc (take (Suc k) (rev (other_messages (messages cm))))))"
proof -
  let ?sys = "system_messages (messages cm)"
  let ?oth = "rev (other_messages (messages cm))"
  let ?r = "get_context enc cm B"
  from get_context_selection[of cm enc B] obtain k where k:
    "k \<le> length (other_messages (messages cm))"
    "mset ?r = mset ?sys + mset (take k ?oth)"
    "\<forall>j < k. total_cost enc ?sys + total_cost enc (take (Suc j) ?oth) \<le> B"
    "k < length (other_messages (messages cm)) \<longrightarrow>
       B < total_cost enc ?sys + total_cost enc (take (Suc k) ?oth)"
    by blast
  have cost: "total_cost enc ?r = total_cost enc ?sys + total_cost enc (take k ?oth)"
    by (simp add: total_cost_mset k(2))
  have a: "total_cost enc ?r \<le> B" if le: "total_cost enc ?sys \<le> B"
  proof (cases k)
    case 0
    then show ?thesis using cost le by (simp add: total_cost_def)
  next
    case (Suc i)
    then have "i < k" by simp
    with k(3) have "total_cost enc ?sys + total_cost enc (take (Suc i) ?oth) \<le> B" by blast
    then show ?thesis using cost Suc by simp
  qed
  have b: "mset ?r = mset ?sys" if gt: "B < total_cost enc ?sys"
  proof (cases k)
    case 0
    then show ?thesis using k(2) by simp
  next
    case (Suc i)
    then have "0 < k" by simp
    with k(3) have "total_cost enc ?sys + total_cost enc (take (Suc 0) ?oth) \<le> B" by blast
    moreover have "0 \<le> total_cost enc (take (Suc 0) ?oth)" by (rule total_cost_nonneg)
    ultimately show ?thesis using gt by simp
  qed
  from a b k show ?thesis by blast
qed

lemma example_roles:
  "role u1 = User" "role a1 = Assistant" "role s1 = System" "role s2 = System"
  by (simp_all add: u1_def a1_def s1_def s2_def)

lemma example_timestamps:
  "timestamp u1 = 1" "timestamp a1 = 2" "timestamp s1 = 3" "timestamp s2 = 4"
  by (simp_all add: u1_def a1_def s1_def s2_def)

lemma cost_values:
  "count_message_tokens char_tokens u1 = 13" "count_message_tokens char_tokens a1 = 21"
  "count_message_tokens char_tokens s1 = 18" "count_message_tokens char_tokens s2 = 17"
  by (simp_all add: count_message_tokens_def char_tokens_def u1_def a1_def s1_def s2_def str_def)

lemma get_context_usa: "get_context char_tokens window_usa 40 = [s1, a1]"
  by (simp add: get_context_def window_usa_def Let_def system_messages_def other_messages_def
      total_cost_def cost_values sort_key_of_def example_roles example_timestamps)

lemma get_context_ss: "get_context char_tokens window_ss 20 = [s1, s2]"
  by (simp add: get_context_def window_ss_def Let_def system_messages_def other_messages_def
      total_cost_def cost_values sort_key_of_def example_roles example_timestamps)

theorem retrieval_budget_bound_witness:
  "total_cost char_tokens (system_messages (messages window_usa)) \<le> 40 \<and>
   total_cost char_tokens (get_context char_tokens window_usa 40) \<le> 40 \<and>
   get_context char_tokens window_usa 40 = [s1, a1]"
proof -
  have h: "total_cost char_tokens (system_messages (messages window_usa)) \<le> 40"
    by (simp add: window_usa_def system_messages_def total_cost_def cost_values example_roles)
  from retrieval_budget_bound[of char_tokens window_usa 40] h
  have "total_cost char_tokens (get_context char_tokens window_usa 40) \<le> 40" by blast
  with h get_context_usa show ?thesis by simp
qed

text \<open>
  The claim as stated excepts only the case that a single system turn exceeds the budget. With
  a tokenizer that counts characters, two system turns of cost 18 and 17 and a budget of 20,
  no single system turn exceeds the budget, yet the returned turns cost 35.
\<close>

theorem single_system_turn_counterexample:
  "system_messages (messages window_ss) = [s1, s2] \<and>
   count_message_tokens char_tokens s1 \<le> 20 \<and>
   count_message_tokens char_tokens s2 \<le> 20 \<and>
   \<not> total_cost char_tokens (get_context char_tokens window_ss 20) \<le> 20"
proof -
  have "system_messages (messages window_ss) = [s1, s2]"
    by (simp add: window_ss_def system_messages_def example_roles)
  moreover have "\<not> total_cost char_tokens (get_context char_tokens window_ss 20) \<le> 20"
    by (simp add: get_context_ss total_cost_def cost_values)
  ultimately show ?thesis by (simp add: cost_values)
qed

lemma get_context_usa_all: "get_context char_tokens window_usa 100 = [s1, u1, a1]"
  by (simp add: get_context_def window_usa_def Let_def system_messages_def other_messages_def
      total_cost_def cost_values sort_key_of_def example_roles example_timestamps)

theorem retrieval_ordering_witness:
  "(1::nat) < 2 \<and> 2 < length (get_context char_tokens window_usa 100) \<and>
   (role (get_context char_tokens window_usa 100 ! 1) = System) =
     (role (get_context char_tokens window_usa 100 ! 2) = System) \<and>
   timestamp (get_context char_tokens window_usa 100 ! 1) \<le>
     timestamp (get_context char_tokens window_usa 100 ! 2) \<and>
   get_context char_tokens (init_context 10 (str ''gpt-4'')) 100 = []"
proof -
  let ?r = "get_context char_tokens window_usa 100"
  have h: "(1::nat) < 2 \<and> 2 < length ?r"
    by (simp add: get_context_usa_all)
  have g: "(role (?r ! 1) = System) = (role (?r ! 2) = System)"
    by (simp add: get_context_usa_all example_roles)
  from retrieval_ordering[of char_tokens window_usa 100] h g
  have "timestamp (?r ! 1) \<le> timestamp (?r ! 2)" by blast
  moreover from retrieval_ordering[of char_tokens "init_context 10 (str ''gpt-4'')" 100]
  have "get_context char_tokens (init_context 10 (str ''gpt-4'')) 100 = []"
    by (simp add: init_context_def)
  ultimately show ?thesis using h g by blast
qed

section \<open>Summarization\<close>

lemma dropWhile_summary_prefix: "dropWhile is_space (summary_prefix @ s) = summary_prefix @ s"
  by (simp add: summary_prefix_def is_space_def)

lemma strip_summary_nonempty: "strip (summary_prefix @ s) \<noteq> []"
proof -
  have "dropWhile is_space (rev s @ rev summary_prefix) \<noteq> []"
    by (simp add: dropWhile_append summary_prefix_def is_space_def)
  then show ?thesis by (simp add: strip_def dropWhile_summary_prefix)
qed

lemma strip_summary_verbatim:
  assumes "s \<noteq> []" and "\<not> is_space (last s)"
  shows "strip (summary_prefix @ s) = summary_prefix @ s"
proof -
  from assms(1) obtain ys y where s: "s = ys @ [y]" by (cases s rule: rev_cases) auto
  with assms(2) have "\<not> is_space y" by simp
  then have "dropWhile is_space (rev s @ rev summary_prefix) = rev s @ rev summary_prefix"
    by (simp add: s)
  then show ?thesis by (simp add: strip_def dropWhile_summary_prefix)
qed

lemma Message_summary:
  "Message System (summary_prefix @ s) None now =
     Inr \<lparr>role = System, content = strip (summary_prefix @ s), timestamp = now, metadata = None\<rparr>"
  using strip_summary_nonempty[of s]
  by (simp add: Message_def validate_content_def summary_prefix_def)

text \<open>
  Claim C9 (summarization contract), as amended. \<open>summarize_old_context\<close> fails with one of its
  two "insufficient content" errors exactly when the window holds fewer than two turns or no
  non-system turn. Otherwise, when the summarizer, called with the non-system turns in their
  order, returns \<open>s\<close>, the call returns \<open>s\<close> unchanged and the window's turns become the system
  turns followed by one new system turn whose content is the prefix followed by \<open>s\<close>, stripped
  of surrounding whitespace as every message content is; the content is the prefix followed by
  \<open>s\<close> verbatim whenever \<open>s\<close> is not empty and does not end in whitespace.
\<close>

theorem summarize_contract:
  "((\<exists>e. summarize_old_context f now cm = Inl (ValueError e)) \<longleftrightarrow>
      (length (messages cm) < 2 \<or> other_messages (messages cm) = [])) \<and>
   (2 \<le> length (messages cm) \<and> other_messages (messages cm) \<noteq> [] \<and>
    f (other_messages (messages cm)) = Inr s \<longrightarrow>
      summarize_old_context f now cm =
        Inr (s, cm\<lparr>messages := system_messages (messages cm) @
               [\<lparr>role = System, content = strip (summary_prefix @ s), timestamp = now,
                 metadata = None\<rparr>]\<rparr>) \<and>
      (s \<noteq> [] \<and> \<not> is_space (last s) \<longrightarrow> strip (summary_prefix @ s) = summary_prefix @ s))"
proof (intro conjI impI)
  show "(\<exists>e. summarize_old_context f now cm = Inl (ValueError e)) \<longleftrightarrow>
      (length (messages cm) < 2 \<or> other_messages (messages cm) = [])"
    by (auto simp: summarize_old_context_def Let_def Message_summary split: sum.splits)
next
  assume h: "2 \<le> length (messages cm) \<and> other_messages (messages cm) \<noteq> [] \<and>
    f (other_messages (messages cm)) = Inr s"
  then show "summarize_old_context f now cm =
        Inr (s, cm\<lparr>messages := system_messages (messages cm) @
               [\<lparr>role = System, content = strip (summary_prefix @ s), timestamp = now,
                 metadata = None\<rparr>]\<rparr>)"
    by (simp add: summarize_old_context_def Let_def Message_summary)
next
  assume "s \<noteq> [] \<and> \<not> is_space (last s)"
  then show "strip (summary_prefix @ s) = summary_prefix @ s"
    by (simp add: strip_summary_verbatim)
qed

lemma strip_prefix_S_space: "strip (summary_prefix @ str ''S '') = summary_prefix @ str ''S''"
  by (simp add: strip_def summary_prefix_def is_space_def str_def)

lemma window_usa_facts:
  "2 \<le> length (messages window_usa)" "\<not> length (messages window_usa) < 2"
  "other_messages (messages window_usa) \<noteq> []"
  "system_messages (messages window_usa) = [s1]"
  by (simp_all add: window_usa_def other_messages_def system_messages_def example_roles)

theorem summarize_contract_witness:
  "2 \<le> length (messages window_usa) \<and> other_messages (messages window_usa) \<noteq> [] \<and>
   summarizer_S (other_messages (messages window_usa)) = Inr (str ''S'') \<and>
   summarize_old_context summarizer_S 9 window_usa =
     Inr (str ''S'', window_usa\<lparr>messages :=
        [s1, \<lparr>role = System, content = summary_prefix @ str ''S'', timestamp = 9,
              metadata = None\<rparr>]\<rparr>)"
proof -
  have h: "2 \<le> length (messages window_usa) \<and> other_messages (messages window_usa) \<noteq> [] \<and>
     summarizer_S (other_messages (messages window_usa)) = Inr (str ''S'')"
    by (simp add: window_usa_facts summarizer_S_def)
  have v: "str ''S'' \<noteq> [] \<and> \<not> is_space (last (str ''S''))"
    by (simp add: str_def is_space_def)
  from summarize_contract[of summarizer_S 9 window_usa "str ''S''"] h v
  have "summarize_old_context summarizer_S 9 window_usa =
     Inr (str ''S'', window_usa\<lparr>messages := system_messages (messages window_usa) @
        [\<lparr>role = System, content = summary_prefix @ str ''S'', timestamp = 9,
          metadata = None\<rparr>]\<rparr>)"
    by simp
  with h show ?thesis by (simp add: window_usa_facts)
qed

text \<open>
  The claim as stated fails when the summary ends in whitespace: for the summary \<open>S\<close> followed
  by a space, the new turn's content is the prefix followed by \<open>S\<close> alone, and the summary
  does not occur in it.
\<close>

theorem summary_not_contained_counterexample:
  "summarize_old_context summarizer_S_space 9 window_usa =
     Inr (str ''S '', window_usa\<lparr>messages :=
        [s1, \<lparr>role = System, content = summary_prefix @ str ''S'', timestamp = 9,
              metadata = None\<rparr>]\<rparr>) \<and>
   \<not> sublist (str ''S '') (summary_prefix @ str ''S'')"
proof -
  have "summarize_old_context summarizer_S_space 9 window_usa =
     Inr (str ''S '', window_usa\<lparr>messages :=
        [s1, \<lparr>role = System, content = summary_prefix @ str ''S'', timestamp = 9,
              metadata = None\<rparr>]\<rparr>)"
    by (simp add: summarize_old_context_def Let_def Message_summary window_usa_facts
        summarizer_S_space_def strip_prefix_S_space)
  moreover have "\<not> sublist (str ''S '') (summary_prefix @ str ''S'')"
    by (simp add: summary_prefix_def str_def sublist_Cons_right)
  ultimately show ?thesis by simp
qed

section \<open>Retrieval leaves the window alone\<close>

lemma select_recent_h_frame:
  "self_messages (select_recent_h enc B r t ms st) = self_messages st \<and>
   self_max_messages (select_recent_h enc B r t ms st) = self_max_messages st \<and>
   self_model_name (select_recent_h enc B r t ms st) = self_model_name st \<and>
   next_ref (select_recent_h enc B r t ms st) = next_ref st \<and>
   (\<forall>a. a \<noteq> r \<longrightarrow> heap (select_recent_h enc B r t ms st) a = heap st a)"
  by (induction ms arbitrary: t st) (simp_all add: list_append_def)

lemma select_recent_h_result:
  "list_of (select_recent_h enc B r t ms st) r = fst (select_recent enc B (list_of st r, t) ms)"
proof (induction ms arbitrary: t st)
  case Nil
  show ?case by simp
next
  case (Cons m ms)
  have "list_of (list_append r m st) r = list_of st r @ [m]"
    by (simp add: list_append_def list_of_def)
  with Cons show ?case by simp
qed

lemma new_list_simps:
  "fst (new_list xs st) = next_ref st"
  "self_messages (snd (new_list xs st)) = self_messages st"
  "self_max_messages (snd (new_list xs st)) = self_max_messages st"
  "self_model_name (snd (new_list xs st)) = self_model_name st"
  "next_ref (snd (new_list xs st)) = Suc (next_ref st)"
  "list_of (snd (new_list xs st)) (next_ref st) = xs"
  "a \<noteq> next_ref st \<Longrightarrow> heap (snd (new_list xs st)) a = heap st a"
  "a \<noteq> next_ref st \<Longrightarrow> list_of (snd (new_list xs st)) a = list_of st a"
  by (simp_all add: new_list_def list_of_def)

lemma get_context_h_unfold:
  assumes "list_of st (self_messages st) \<noteq> []"
  defines "n \<equiv> next_ref st"
  defines "ms \<equiv> list_of st (self_messages st)"
  defines "st1 \<equiv> snd (new_list (filter (\<lambda>m. role m = System) ms) st)"
  defines "st2 \<equiv> snd (new_list (filter (\<lambda>m. role m \<noteq> System) (list_of st1 (self_messages st1))) st1)"
  defines "st3 \<equiv> snd (new_list (list_of st2 n) st2)"
  shows "get_context_h enc B st =
     (Suc (Suc n), list_sort (Suc (Suc n))
        (select_recent_h enc B (Suc (Suc n)) (total_cost enc (list_of st2 n))
           (rev (list_of st3 (Suc n))) st3))"
  using assms(1)
  unfolding get_context_h_def n_def ms_def st1_def st2_def st3_def
  by (simp add: new_list_def Let_def)

lemma get_context_h_frame:
  assumes "self_messages st < next_ref st"
  shows "self_messages (snd (get_context_h enc B st)) = self_messages st \<and>
         self_max_messages (snd (get_context_h enc B st)) = self_max_messages st \<and>
         self_model_name (snd (get_context_h enc B st)) = self_model_name st \<and>
         (\<forall>a < next_ref st. heap (snd (get_context_h enc B st)) a = heap st a) \<and>
         next_ref st \<le> fst (get_context_h enc B st) \<and>
         fst (get_context_h enc B st) < next_ref (snd (get_context_h enc B st))"
proof (cases "list_of st (self_messages st) = []")
  case True
  then show ?thesis by (simp add: get_context_h_def new_list_def)
next
  case False
  define n where "n = next_ref st"
  define ms where "ms = list_of st (self_messages st)"
  define st1 where "st1 = snd (new_list (filter (\<lambda>m. role m = System) ms) st)"
  define st2 where "st2 = snd (new_list (filter (\<lambda>m. role m \<noteq> System) (list_of st1 (self_messages st1))) st1)"
  define st3 where "st3 = snd (new_list (list_of st2 n) st2)"
  define st4 where "st4 = select_recent_h enc B (Suc (Suc n)) (total_cost enc (list_of st2 n))
           (rev (list_of st3 (Suc n))) st3"
  have eq: "get_context_h enc B st = (Suc (Suc n), list_sort (Suc (Suc n)) st4)"
    using get_context_h_unfold[OF False, of enc B]
    by (simp add: n_def ms_def st1_def st2_def st3_def st4_def)
  have n1: "next_ref st1 = Suc n" and n2: "next_ref st2 = Suc (Suc n)"
    and n3: "next_ref st3 = Suc (Suc (Suc n))"
    by (simp_all add: st1_def st2_def st3_def n_def new_list_simps)
  have a3: "self_messages st3 = self_messages st" "self_max_messages st3 = self_max_messages st"
    "self_model_name st3 = self_model_name st"
    by (simp_all add: st1_def st2_def st3_def new_list_simps)
  have h1: "heap st1 a = heap st a" if "a < n" for a
    using that by (simp add: st1_def n_def new_list_simps)
  have h2: "heap st2 a = heap st1 a" if "a < n" for a
    using that n1 by (simp add: st2_def new_list_simps)
  have h3: "heap st3 a = heap st2 a" if "a < n" for a
    using that n2 by (simp add: st3_def new_list_simps)
  note fr = select_recent_h_frame[of enc B "Suc (Suc n)" "total_cost enc (list_of st2 n)"
      "rev (list_of st3 (Suc n))" st3, folded st4_def]
  have h4: "heap st4 a = heap st a" if "a < n" for a
    using that fr h1 h2 h3 by simp
  show ?thesis
    unfolding eq using fr h4 a3 n3 by (simp add: list_sort_def n_def)
qed

lemma get_context_h_result:
  assumes "self_messages st < next_ref st"
  shows "list_of (snd (get_context_h enc B st)) (fst (get_context_h enc B st)) =
         get_context enc (window_of st) B"
proof (cases "list_of st (self_messages st) = []")
  case True
  then show ?thesis
    by (simp add: get_context_h_def new_list_def get_context_def window_of_def list_of_def)
next
  case False
  define n where "n = next_ref st"
  define ms where "ms = list_of st (self_messages st)"
  define st1 where "st1 = snd (new_list (filter (\<lambda>m. role m = System) ms) st)"
  define st2 where "st2 = snd (new_list (filter (\<lambda>m. role m \<noteq> System) (list_of st1 (self_messages st1))) st1)"
  define st3 where "st3 = snd (new_list (list_of st2 n) st2)"
  define st4 where "st4 = select_recent_h enc B (Suc (Suc n)) (total_cost enc (list_of st2 n))
           (rev (list_of st3 (Suc n))) st3"
  have eq: "get_context_h enc B st = (Suc (Suc n), list_sort (Suc (Suc n)) st4)"
    using get_context_h_unfold[OF False, of enc B]
    by (simp add: n_def ms_def st1_def st2_def st3_def st4_def)
  have n1: "next_ref st1 = Suc n" and n2: "next_ref st2 = Suc (Suc n)"
    by (simp_all add: st1_def st2_def n_def new_list_simps)
  have lt: "self_messages st \<noteq> n" using assms by (simp add: n_def)
  have ms1: "list_of st1 (self_messages st1) = ms"
    using lt by (simp add: st1_def new_list_simps n_def ms_def)
  have sys1: "list_of st1 n = system_messages ms"
    by (simp add: st1_def n_def new_list_simps system_messages_def)
  have sys2: "list_of st2 n = system_messages ms"
    using sys1 n1 by (simp add: st2_def new_list_simps)
  have oth2: "list_of st2 (Suc n) = other_messages ms"
    using ms1 n1 new_list_simps(6)[of _ st1] by (simp add: st2_def other_messages_def)
  have oth3: "list_of st3 (Suc n) = other_messages ms"
    using oth2 n2 by (simp add: st3_def new_list_simps)
  have res3: "list_of st3 (Suc (Suc n)) = system_messages ms"
    using sys2 n2 new_list_simps(6)[of _ st2] by (simp add: st3_def)
  have "list_of st4 (Suc (Suc n)) =
      fst (select_recent enc B (system_messages ms, total_cost enc (system_messages ms))
             (rev (other_messages ms)))"
    unfolding st4_def select_recent_h_result by (simp add: res3 oth3 sys2)
  then have "list_of (list_sort (Suc (Suc n)) st4) (Suc (Suc n)) =
      sort_key sort_key_of (fst (select_recent enc B
        (system_messages ms, total_cost enc (system_messages ms)) (rev (other_messages ms))))"
    by (simp add: list_sort_def list_of_def)
  then show ?thesis
    unfolding eq using False
    by (simp add: get_context_def window_of_def Let_def ms_def split: prod.splits)
qed

text \<open>
  Claim C10 (retrieval is read-only). For a state in which the window's list object has been
  allocated, \<open>get_context\<close> leaves \<open>self.messages\<close> (the reference and the list it refers to),
  \<open>max_messages\<close> and \<open>model_name\<close> unchanged, as well as every other list that existed before
  the call; the list it returns is a new object holding the selection. A second retrieval
  with the same budget therefore returns a list with the same turns in the same order.
\<close>

theorem get_context_read_only:
  assumes "self_messages st < next_ref st"
  shows "self_messages (snd (get_context_h enc B st)) = self_messages st \<and>
         heap (snd (get_context_h enc B st)) (self_messages st) = heap st (self_messages st) \<and>
         self_max_messages (snd (get_context_h enc B st)) = self_max_messages st \<and>
         self_model_name (snd (get_context_h enc B st)) = self_model_name st \<and>
         window_of (snd (get_context_h enc B st)) = window_of st \<and>
         (\<forall>a < next_ref st. heap (snd (get_context_h enc B st)) a = heap st a) \<and>
         next_ref st \<le> fst (get_context_h enc B st) \<and>
         list_of (snd (get_context_h enc B st)) (fst (get_context_h enc B st)) =
           get_context enc (window_of st) B \<and>
         list_of (snd (get_context_h enc B (snd (get_context_h enc B st))))
                 (fst (get_context_h enc B (snd (get_context_h enc B st)))) =
           list_of (snd (get_context_h enc B st)) (fst (get_context_h enc B st))"
proof -
  let ?st' = "snd (get_context_h enc B st)"
  note fr = get_context_h_frame[OF assms, of enc B]
  have same: "heap ?st' (self_messages st) = heap st (self_messages st)"
    using fr assms by blast
  have w: "window_of ?st' = window_of st"
    using fr same by (simp add: window_of_def list_of_def)
  have wf': "self_messages ?st' < next_ref ?st'"
    using fr assms by linarith
  have again: "list_of (snd (get_context_h enc B ?st')) (fst (get_context_h enc B ?st')) =
      get_context enc (window_of ?st') B"
    by (rule get_context_h_result[OF wf'])
  show ?thesis
    using fr same w again get_context_h_result[OF assms, of enc B] by simp
qed

lemma get_context_h_usa:
  "list_of (snd (get_context_h char_tokens 40 state_usa))
     (fst (get_context_h char_tokens 40 state_usa)) = [s1, a1]"
  by (simp add: get_context_h_def state_usa_def list_of_def new_list_def Let_def example_roles
      total_cost_def cost_values list_append_def list_sort_def sort_key_of_def
      example_timestamps)

theorem get_context_read_only_witness:
  "self_messages state_usa < next_ref state_usa \<and>
   heap (snd (get_context_h char_tokens 40 state_usa)) (self_messages state_usa) =
     Some [u1, s1, a1] \<and>
   list_of (snd (get_context_h char_tokens 40 state_usa))
     (fst (get_context_h char_tokens 40 state_usa)) = [s1, a1]"
proof -
  have h: "self_messages state_usa < next_ref state_usa" by (simp add: state_usa_def)
  have "heap state_usa (self_messages state_usa) = Some [u1, s1, a1]"
    by (simp add: state_usa_def)
  with get_context_read_only[OF h, of char_tokens 40]
  have "heap (snd (get_context_h char_tokens 40 state_usa)) (self_messages state_usa) =
     Some [u1, s1, a1]" by simp
  moreover have "list_of (snd (get_context_h char_tokens 40 state_usa))
     (fst (get_context_h char_tokens 40 state_usa)) = [s1, a1]"
    by (rule get_context_h_usa)
  ultimately show ?thesis using h by simp
qed

section \<open>Round trip through a file\<close>

lemma save_window_u:
  "save_to_file isoformat window_u (str ''c.json'') empty_fs = Inr (saved_fs isoformat)"
  by (simp add: save_to_file_def empty_fs_def saved_fs_def)

lemma str_eq_iff: "str a = str b \<longleftrightarrow> a = b"
  unfolding str_def by (rule inj_map_eq_map) (rule inj_of_char)

lemma parse_role_role_str: "parse_role (JStr (role_str r)) = Some r"
  by (cases r) (simp_all add: parse_role_def str_def)

lemma parse_metadata_items_map:
  "parse_metadata_items (map (\<lambda>(k, v). (k, JStr v)) kv) = Some kv"
  by (induction kv) auto

lemma parse_metadata_json: "parse_metadata (Some (metadata_json md)) = Some md"
  by (cases md) (simp_all add: parse_metadata_def metadata_json_def parse_metadata_items_map)

lemma load_message_saved:
  assumes "content m \<noteq> []" and "strip (content m) = content m"
  shows "load_message t (message_json isoformat m) = Inr (m\<lparr>timestamp := t\<rparr>)"
proof -
  have keys: "map_of [(str ''role'', a), (str ''content'', b), (str ''timestamp'', c),
                     (str ''metadata'', d)] (str ''role'') = Some a"
    "map_of [(str ''role'', a), (str ''content'', b), (str ''timestamp'', c),
                     (str ''metadata'', d)] (str ''content'') = Some b"
    "map_of [(str ''role'', a), (str ''content'', b), (str ''timestamp'', c),
                     (str ''metadata'', d)] (str ''metadata'') = Some d" for a b c d :: json
    by (simp_all add: str_eq_iff)
  have "Message (role m) (content m) (metadata m) t = Inr (m\<lparr>timestamp := t\<rparr>)"
    using assms by (simp add: Message_def validate_content_def)
  then show ?thesis
    unfolding load_message_def message_json_def
    by (simp only: keys json.case option.case parse_role_role_str parse_metadata_json sum.case)
qed

lemma load_messages_saved:
  assumes "\<forall>m \<in> set ms. content m \<noteq> [] \<and> strip (content m) = content m"
  shows "load_messages now_at i (map (message_json isoformat) ms) = Inr (restamp now_at i ms)"
  using assms by (induction ms arbitrary: i) (simp_all add: load_message_saved)

text \<open>What the round trip does preserve: for a window whose contents are as the \<open>Message\<close>
  constructor leaves them (not empty, stripped), loading the saved file restores the model
  name, the limit and the turns in order, each with its role, content and metadata; only the
  timestamps are those of the loading.\<close>

lemma load_after_save:
  assumes "save_to_file isoformat cm p fs = Inr fs'"
    and "\<forall>m \<in> set (messages cm). content m \<noteq> [] \<and> strip (content m) = content m"
    and "\<not> unreadable fs p"
  shows "load_from_file now_at cm0 p fs' =
     (None, attributes (cm\<lparr>messages := restamp now_at 0 (messages cm)\<rparr>))"
proof -
  from assms(1) have f: "files fs' p = Some (Document (window_json isoformat cm))"
    and u: "\<not> unreadable fs' p"
    using assms(3) by (auto simp: save_to_file_def split: if_splits)
  have keys: "map_of [(str ''model_name'', a), (str ''max_messages'', b), (str ''messages'', c)]
       (str ''model_name'') = Some a"
    "map_of [(str ''model_name'', a), (str ''max_messages'', b), (str ''messages'', c)]
       (str ''max_messages'') = Some b"
    "map_of [(str ''model_name'', a), (str ''max_messages'', b), (str ''messages'', c)]
       (str ''messages'') = Some c" for a b c :: json
    by (simp_all add: str_eq_iff)
  show ?thesis
    unfolding load_from_file_def f window_json_def
    by (simp only: u if_False keys option.case file_content.case json.case iterate_def Let_def
        load_messages_saved[OF assms(2)] sum.case)
       (simp add: attributes_def)
qed

lemma load_message_u1:
  "load_message t (message_json isoformat u1) = Inr (u1\<lparr>timestamp := t\<rparr>)"
  by (simp add: load_message_def message_json_def u1_def str_def parse_role_def
      parse_metadata_def metadata_json_def Message_def validate_content_def strip_def
      is_space_def)

text \<open>
  Claim C1 (round trip through a file) fails on the code. \<open>save_to_file\<close> writes every
  timestamp, but \<open>load_from_file\<close> builds each message without it, so the loaded turn carries
  the time of loading. Here a window with one user turn stamped at microsecond 1 is saved and
  loaded five seconds later: model name, limit, role, content and metadata come back, the
  timestamp is 5000000, another second than the one saved.
\<close>

theorem load_resets_timestamp:
  "save_to_file isoformat window_u (str ''c.json'') empty_fs = Inr (saved_fs isoformat) \<and>
   load_from_file (\<lambda>i. 5000000) (init_context 10 (str ''gpt-4'')) (str ''c.json'')
       (saved_fs isoformat) =
     (None, attributes (window_u\<lparr>messages := [u1\<lparr>timestamp := 5000000\<rparr>]\<rparr>)) \<and>
   typed_window (snd (load_from_file (\<lambda>i. 5000000) (init_context 10 (str ''gpt-4''))
       (str ''c.json'') (saved_fs isoformat))) =
     Some (window_u\<lparr>messages := [u1\<lparr>timestamp := 5000000\<rparr>]\<rparr>) \<and>
   timestamp u1 = 1 \<and>
   timestamp (u1\<lparr>timestamp := 5000000\<rparr>) div 1000000 \<noteq> timestamp u1 div 1000000"
proof -
  have l: "load_from_file (\<lambda>i. 5000000) (init_context 10 (str ''gpt-4'')) (str ''c.json'')
       (saved_fs isoformat) =
     (None, attributes (window_u\<lparr>messages := [u1\<lparr>timestamp := 5000000\<rparr>]\<rparr>))"
    by (simp add: load_from_file_def saved_fs_def empty_fs_def window_json_def window_u_def
        init_context_def iterate_def load_message_u1 attributes_def str_eq_iff)
  have "typed_window (attributes (window_u\<lparr>messages := [u1\<lparr>timestamp := 5000000\<rparr>]\<rparr>)) =
     Some (window_u\<lparr>messages := [u1\<lparr>timestamp := 5000000\<rparr>]\<rparr>)"
    by (simp add: typed_window_def attributes_def window_u_def)
  with l show ?thesis by (simp add: save_window_u example_timestamps)
qed

section \<open>Deleting and expiring sessions\<close>

text \<open>
  Claim C5 (\<open>delete_session\<close> fails only if the session is absent from both memory and store)
  fails on the code. A session that is in the memory cache but has no file is removed from
  the cache, and the call then raises "not found": the handler asks whether the session is
  in memory after it has been deleted from there.
\<close>

theorem delete_memory_only_raises:
  "sessions memory_only (str ''a'') = Some session_a \<and>
   delete_session memory_only (str ''a'') =
     (Some (NotFoundError SessionMissing),
      memory_only\<lparr>sessions := Map.empty\<rparr>)"
  by (simp add: delete_session_def memory_only_def working_disk_def storage_delete_def Let_def)

lemma delete_session_memory: "sessions (snd (delete_session m sid)) sid = None"
  by (auto simp: delete_session_def storage_delete_def Let_def split: option.splits)

lemma delete_session_removes:
  assumes "\<not> exists_raises (storage m) (get_file_path sid)"
    and "\<not> undeletable (storage m) (get_file_path sid)"
  shows "stored (storage (snd (delete_session m sid))) (get_file_path sid) = None \<and>
         (fst (delete_session m sid) = None \<or>
          fst (delete_session m sid) = Some (NotFoundError SessionMissing))"
  using assms
  by (auto simp: delete_session_def storage_delete_def Let_def split: option.splits)

lemma delete_session_stuck:
  assumes "\<not> exists_raises (storage m) (get_file_path sid)"
    and "undeletable (storage m) (get_file_path sid)"
    and "stored (storage m) (get_file_path sid) = Some d"
  shows "fst (delete_session m sid) = Some StorageError \<and>
         storage (snd (delete_session m sid)) = storage m"
  using assms
  by (auto simp: delete_session_def storage_delete_def Let_def split: option.splits)

lemma get_session_expired_in_memory:
  assumes "sessions m sid = Some s" and "is_expired now s"
  shows "get_session from_dict now m sid =
     ((case fst (delete_session m sid) of
         Some e \<Rightarrow> Inl e | None \<Rightarrow> Inl (NotFoundError SessionExpired)),
      snd (delete_session m sid))"
  using assms by (cases "delete_session m sid") (auto simp: get_session_def split: option.splits)

lemma get_session_expired_in_store:
  assumes "sessions m sid = None"
    and "\<not> exists_raises (storage m) (get_file_path sid)"
    and "stored (storage m) (get_file_path sid) = Some d"
    and "\<not> unreadable_file (storage m) (get_file_path sid)"
    and "from_dict d = Inr s" and "is_expired now s"
  shows "get_session from_dict now m sid =
     ((case fst (delete_session m sid) of
         Some (NotFoundError r) \<Rightarrow> Inl (NotFoundError SessionMissing)
       | Some e \<Rightarrow> Inl e
       | None \<Rightarrow> Inl (NotFoundError SessionMissing)),
      snd (delete_session m sid))"
proof -
  have "storage_load (storage m) sid = Inr d"
    using assms(2,3,4) by (simp add: storage_load_def)
  then show ?thesis
    using assms(1,5,6)
    by (cases "delete_session m sid")
       (auto simp: get_session_def split: option.splits session_error.splits)
qed

text \<open>
  Claim C6 (an expired session is unreachable), as amended. Let the session that
  \<open>get_session\<close> finds, in the memory cache or else as the readable document of the store,
  have an expiry time in the past. Then \<open>get_session\<close> never returns it, and the memory cache
  does not hold it afterwards. If the store can test for the session's file and unlink it,
  the call raises \<open>NotFoundError\<close> and afterwards the store has no file for the session. If
  the file exists and cannot be unlinked, the call raises \<open>StorageError\<close> instead and the
  file stays in the store.
\<close>

theorem expired_session_unreachable:
  assumes "sessions m sid = Some s \<or>
           (sessions m sid = None \<and> \<not> exists_raises (storage m) (get_file_path sid) \<and>
            stored (storage m) (get_file_path sid) = Some d \<and>
            \<not> unreadable_file (storage m) (get_file_path sid) \<and> from_dict d = Inr s)"
    and "expires_at s = Some e" and "e < now"
  shows "(\<exists>err. fst (get_session from_dict now m sid) = Inl err) \<and>
         sessions (snd (get_session from_dict now m sid)) sid = None \<and>
         (\<not> exists_raises (storage m) (get_file_path sid) \<and>
          \<not> undeletable (storage m) (get_file_path sid) \<longrightarrow>
            (\<exists>r. fst (get_session from_dict now m sid) = Inl (NotFoundError r)) \<and>
            stored (storage (snd (get_session from_dict now m sid))) (get_file_path sid) = None) \<and>
         (\<not> exists_raises (storage m) (get_file_path sid) \<and>
          undeletable (storage m) (get_file_path sid) \<and>
          stored (storage m) (get_file_path sid) \<noteq> None \<longrightarrow>
            fst (get_session from_dict now m sid) = Inl StorageError \<and>
            stored (storage (snd (get_session from_dict now m sid))) (get_file_path sid) =
              stored (storage m) (get_file_path sid))"
proof -
  have ex: "is_expired now s" using assms(2,3) by (simp add: is_expired_def)
  let ?del = "delete_session m sid"
  have shape: "get_session from_dict now m sid =
      ((case fst ?del of Some e \<Rightarrow> Inl e | None \<Rightarrow> Inl (NotFoundError SessionExpired)), snd ?del) \<or>
     get_session from_dict now m sid =
      ((case fst ?del of
          Some (NotFoundError r) \<Rightarrow> Inl (NotFoundError SessionMissing)
        | Some e \<Rightarrow> Inl e
        | None \<Rightarrow> Inl (NotFoundError SessionMissing)), snd ?del)"
    using assms(1) get_session_expired_in_memory[OF _ ex, of m sid from_dict]
      get_session_expired_in_store[OF _ _ _ _ _ ex, of m sid d from_dict]
    by blast
  have 1: "\<exists>err. fst (get_session from_dict now m sid) = Inl err"
    using shape by (auto split: option.splits session_error.splits)
  have 2: "sessions (snd (get_session from_dict now m sid)) sid = None"
    using shape delete_session_memory[of m sid] by auto
  have 3: "(\<exists>r. fst (get_session from_dict now m sid) = Inl (NotFoundError r)) \<and>
       stored (storage (snd (get_session from_dict now m sid))) (get_file_path sid) = None"
    if "\<not> exists_raises (storage m) (get_file_path sid) \<and>
        \<not> undeletable (storage m) (get_file_path sid)"
    using shape delete_session_removes[of m sid] that by auto
  have 4: "fst (get_session from_dict now m sid) = Inl StorageError \<and>
       stored (storage (snd (get_session from_dict now m sid))) (get_file_path sid) =
         stored (storage m) (get_file_path sid)"
    if h: "\<not> exists_raises (storage m) (get_file_path sid) \<and>
        undeletable (storage m) (get_file_path sid) \<and>
        stored (storage m) (get_file_path sid) \<noteq> None"
  proof -
    from h obtain d' where "stored (storage m) (get_file_path sid) = Some d'" by blast
    with h delete_session_stuck[of m sid d'] shape show ?thesis by auto
  qed
  from 1 2 3 4 show ?thesis by blast
qed

lemma working_disk_simps:
  "stored (working_disk docs) = docs" "exists_raises (working_disk docs) p = False"
  "unreadable_file (working_disk docs) p = False" "undeletable (working_disk docs) p = False"
  by (simp_all add: working_disk_def)

theorem expired_session_unreachable_witness:
  "sessions memory_and_store (str ''a'') = Some session_a \<and>
   sessions store_only (str ''a'') = None \<and>
   stored (storage store_only) (get_file_path (str ''a'')) = Some (JObj []) \<and>
   from_dict_a (JObj []) = Inr session_a \<and>
   expires_at session_a = Some 3600 \<and> (3600::int) < 7200 \<and>
   fst (get_session from_dict_a 7200 memory_and_store (str ''a'')) =
     Inl (NotFoundError SessionExpired) \<and>
   sessions (snd (get_session from_dict_a 7200 memory_and_store (str ''a''))) (str ''a'') = None \<and>
   stored (storage (snd (get_session from_dict_a 7200 memory_and_store (str ''a''))))
       (get_file_path (str ''a'')) = None \<and>
   fst (get_session from_dict_a 7200 store_only (str ''a'')) =
     Inl (NotFoundError SessionMissing) \<and>
   sessions (snd (get_session from_dict_a 7200 store_only (str ''a''))) (str ''a'') = None \<and>
   stored (storage (snd (get_session from_dict_a 7200 store_only (str ''a''))))
       (get_file_path (str ''a'')) = None"
proof -
  have p: "get_file_path (str ''a'') = str ''a''" by (simp add: get_file_path_def str_def)
  have h2: "expires_at session_a = Some 3600" by (simp add: session_a_def)
  have h3: "(3600::int) < 7200" by simp
  have m1: "sessions memory_and_store (str ''a'') = Some session_a \<or>
           (sessions memory_and_store (str ''a'') = None \<and>
            \<not> exists_raises (storage memory_and_store) (get_file_path (str ''a'')) \<and>
            stored (storage memory_and_store) (get_file_path (str ''a'')) = Some (JObj []) \<and>
            \<not> unreadable_file (storage memory_and_store) (get_file_path (str ''a'')) \<and>
            from_dict_a (JObj []) = Inr session_a)"
    by (simp add: memory_and_store_def)
  have s1: "sessions store_only (str ''a'') = Some session_a \<or>
           (sessions store_only (str ''a'') = None \<and>
            \<not> exists_raises (storage store_only) (get_file_path (str ''a'')) \<and>
            stored (storage store_only) (get_file_path (str ''a'')) = Some (JObj []) \<and>
            \<not> unreadable_file (storage store_only) (get_file_path (str ''a'')) \<and>
            from_dict_a (JObj []) = Inr session_a)"
    by (simp add: store_only_def working_disk_simps p from_dict_a_def)
  have okm: "\<not> exists_raises (storage memory_and_store) (get_file_path (str ''a'')) \<and>
             \<not> undeletable (storage memory_and_store) (get_file_path (str ''a''))"
    by (simp add: memory_and_store_def working_disk_simps)
  have oks: "\<not> exists_raises (storage store_only) (get_file_path (str ''a'')) \<and>
             \<not> undeletable (storage store_only) (get_file_path (str ''a''))"
    by (simp add: store_only_def working_disk_simps)
  note tm = expired_session_unreachable[where from_dict = from_dict_a and d = "JObj []",
      OF m1 h2 h3]
  note ts = expired_session_unreachable[where from_dict = from_dict_a and d = "JObj []",
      OF s1 h2 h3]
  have vm: "fst (get_session from_dict_a 7200 memory_and_store (str ''a'')) =
     Inl (NotFoundError SessionExpired)"
    by (simp add: get_session_def memory_and_store_def is_expired_def session_a_def
        delete_session_def storage_delete_def working_disk_def p Let_def)
  have vs: "fst (get_session from_dict_a 7200 store_only (str ''a'')) =
     Inl (NotFoundError SessionMissing)"
    by (simp add: get_session_def store_only_def is_expired_def session_a_def from_dict_a_def
        storage_load_def delete_session_def storage_delete_def working_disk_def p Let_def)
  have "sessions store_only (str ''a'') = None" by (simp add: store_only_def)
  moreover have "stored (storage store_only) (get_file_path (str ''a'')) = Some (JObj [])"
    by (simp add: store_only_def working_disk_simps p)
  moreover have "from_dict_a (JObj []) = Inr session_a" by (simp add: from_dict_a_def)
  moreover have "sessions memory_and_store (str ''a'') = Some session_a"
    by (simp add: memory_and_store_def)
  ultimately show ?thesis using tm ts okm oks vm vs h2 by simp
qed

text \<open>
  The claim as stated fails when the file cannot be unlinked: for an expired session that is
  in memory and in the store, \<open>get_session\<close> raises \<open>StorageError\<close>, not "not found", and the
  session's file is still in the store afterwards.
\<close>

theorem expired_session_storage_error_counterexample:
  "sessions read_only_disk (str ''a'') = Some session_a \<and>
   expires_at session_a = Some 3600 \<and> (3600::int) < 7200 \<and>
   fst (get_session from_dict_a 7200 read_only_disk (str ''a'')) = Inl StorageError \<and>
   stored (storage (snd (get_session from_dict_a 7200 read_only_disk (str ''a''))))
       (get_file_path (str ''a'')) = Some (JObj [])"
  by (simp add: get_session_def read_only_disk_def is_expired_def session_a_def
      delete_session_def storage_delete_def working_disk_def get_file_path_def str_def Let_def)

section \<open>Registering and executing plugins\<close>

lemma validate_plugin_bad_schema:
  assumes "name p = Inr n" and "description p = Inr d" and "version p = Inr v"
    and "get_schema p = Inr schema" and "\<not> schema_ok schema"
  shows "validate_plugin p =
     Some (PluginError SchemaCheckFailed (Some (PluginError InvalidSchema None)))"
  using assms by (simp add: validate_plugin_def schema_check_failed_def)

lemma validate_plugin_passed:
  assumes "validate_plugin p = None"
  shows "\<exists>n v. name p = Inr n \<and> version p = Inr v"
  using assms by (auto simp: validate_plugin_def split: sum.splits if_splits)

text \<open>
  Claim C7 (registration validation), as amended. For a plugin whose name, description and
  version can be read and whose schema is not a dictionary with the key \<open>name\<close>,
  \<open>register_plugin\<close> raises \<open>PluginError\<close> "registration failed" wrapping the cause, and the
  registry is unchanged; so it does for any other \<open>Exception\<close> of the validation, when the
  name can be read. If validation passes and \<open>initialize\<close> raises an \<open>Exception\<close>, the same
  error wraps that exception and the registry is unchanged; an exception that is not an
  \<open>Exception\<close> leaves \<open>register_plugin\<close> as it is, the registry unchanged too. A plugin whose
  three properties can be read, whose schema has the key \<open>name\<close>, whose \<open>initialize\<close> returns
  and which has the attribute \<open>enabled\<close> is stored under its name, whether or not name,
  description or version are empty.
\<close>

theorem registration_validation:
  "(name p = Inr n \<and> description p = Inr d \<and> version p = Inr v \<and>
    get_schema p = Inr schema \<and> \<not> schema_ok schema \<longrightarrow>
      register_plugin m p =
        (Some (PluginError RegistrationFailed
           (Some (PluginError SchemaCheckFailed (Some (PluginError InvalidSchema None))))), m)) \<and>
   (name p = Inr n \<and> validate_plugin p = Some cause \<and> is_exception cause \<longrightarrow>
      register_plugin m p = (Some (PluginError RegistrationFailed (Some cause)), m)) \<and>
   (validate_plugin p = None \<and> initialize p = Some e \<and> is_exception e \<longrightarrow>
      register_plugin m p = (Some (PluginError RegistrationFailed (Some e)), m)) \<and>
   (validate_plugin p = None \<and> initialize p = Some e \<and> \<not> is_exception e \<longrightarrow>
      register_plugin m p = (Some e, m)) \<and>
   (name p = Inr n \<and> description p = Inr d \<and> version p = Inr v \<and>
    get_schema p = Inr schema \<and> schema_ok schema \<and> initialize p = None \<and>
    enabled p = Some b \<longrightarrow>
      register_plugin m p = (None, m\<lparr>plugins := (plugins m)(n \<mapsto> p)\<rparr>))"
proof (intro conjI impI)
  assume h: "name p = Inr n \<and> description p = Inr d \<and> version p = Inr v \<and>
    get_schema p = Inr schema \<and> \<not> schema_ok schema"
  then have "validate_plugin p =
     Some (PluginError SchemaCheckFailed (Some (PluginError InvalidSchema None)))"
    using validate_plugin_bad_schema by blast
  with h show "register_plugin m p =
        (Some (PluginError RegistrationFailed
           (Some (PluginError SchemaCheckFailed (Some (PluginError InvalidSchema None))))), m)"
    by (simp add: register_plugin_def registration_handler_def)
next
  assume "name p = Inr n \<and> validate_plugin p = Some cause \<and> is_exception cause"
  then show "register_plugin m p = (Some (PluginError RegistrationFailed (Some cause)), m)"
    by (simp add: register_plugin_def registration_handler_def)
next
  assume h: "validate_plugin p = None \<and> initialize p = Some e \<and> is_exception e"
  then obtain n' where "name p = Inr n'" using validate_plugin_passed by blast
  with h show "register_plugin m p = (Some (PluginError RegistrationFailed (Some e)), m)"
    by (simp add: register_plugin_def registration_handler_def)
next
  assume h: "validate_plugin p = None \<and> initialize p = Some e \<and> \<not> is_exception e"
  then obtain n' where "name p = Inr n'" using validate_plugin_passed by blast
  with h show "register_plugin m p = (Some e, m)"
    by (simp add: register_plugin_def registration_handler_def)
next
  assume "name p = Inr n \<and> description p = Inr d \<and> version p = Inr v \<and>
    get_schema p = Inr schema \<and> schema_ok schema \<and> initialize p = None \<and>
    enabled p = Some b"
  then show "register_plugin m p = (None, m\<lparr>plugins := (plugins m)(n \<mapsto> p)\<rparr>)"
    by (simp add: register_plugin_def validate_plugin_def Let_def)
qed

theorem registration_validation_witness:
  "name no_schema_name = Inr (str ''calc'') \<and>
   description no_schema_name = Inr (str ''calculator'') \<and>
   version no_schema_name = Inr (str ''1.0.0'') \<and>
   get_schema no_schema_name = Inr (JObj [(str ''description'', JStr (str ''calc''))]) \<and>
   \<not> schema_ok (JObj [(str ''description'', JStr (str ''calc''))]) \<and>
   register_plugin no_plugins no_schema_name =
     (Some (PluginError RegistrationFailed
        (Some (PluginError SchemaCheckFailed (Some (PluginError InvalidSchema None))))),
      no_plugins)"
proof -
  have h: "name no_schema_name = Inr (str ''calc'') \<and>
     description no_schema_name = Inr (str ''calculator'') \<and>
     version no_schema_name = Inr (str ''1.0.0'') \<and>
     get_schema no_schema_name = Inr (JObj [(str ''description'', JStr (str ''calc''))]) \<and>
     \<not> schema_ok (JObj [(str ''description'', JStr (str ''calc''))])"
    by (simp add: no_schema_name_def calc_def schema_ok_def str_eq_iff)
  from registration_validation[of no_schema_name "str ''calc''" "str ''calculator''"
      "str ''1.0.0''" "JObj [(str ''description'', JStr (str ''calc''))]" no_plugins] h
  have "register_plugin no_plugins no_schema_name =
     (Some (PluginError RegistrationFailed
        (Some (PluginError SchemaCheckFailed (Some (PluginError InvalidSchema None))))),
      no_plugins)" by blast
  with h show ?thesis by blast
qed

text \<open>
  The claim as stated fails twice. A plugin whose name, description and version are all the
  empty string, with a schema that has the key \<open>name\<close>, is registered, under the empty name.
  And a \<open>KeyboardInterrupt\<close> raised by \<open>initialize\<close> is not wrapped: it leaves
  \<open>register_plugin\<close> as it was raised.
\<close>

theorem empty_name_registered_counterexample:
  "name nameless = Inr [] \<and> description nameless = Inr [] \<and> version nameless = Inr [] \<and>
   register_plugin no_plugins nameless =
     (None, no_plugins\<lparr>plugins := Map.empty([] \<mapsto> nameless)\<rparr>) \<and>
   initialize interrupted_init = Some (RaisedBase (str ''KeyboardInterrupt'')) \<and>
   register_plugin no_plugins interrupted_init =
     (Some (RaisedBase (str ''KeyboardInterrupt'')), no_plugins)"
  by (simp add: nameless_def interrupted_init_def calc_def register_plugin_def
      validate_plugin_def schema_ok_def no_plugins_def registration_handler_def Let_def)

text \<open>
  Claim C8 (execution gating), as amended. For a registered, enabled plugin, \<open>execute_plugin\<close>
  calls the plugin's \<open>execute\<close> with the given context, once, and returns its result
  unchanged; an \<open>Exception\<close> raised by \<open>execute\<close> is wrapped as \<open>PluginExecutionError\<close>, any
  other exception leaves \<open>execute_plugin\<close> unwrapped. After \<open>disable_plugin\<close> on a registered
  name, \<open>execute_plugin\<close> on that name raises "disabled" and makes no call. For a name that
  is not registered it raises "not found" and makes no call.
\<close>

theorem execution_gating:
  "(plugins m n = Some p \<and> enabled p = Some True \<longrightarrow>
      execute_plugin m n context =
        ((case execute p context of
            Inl e \<Rightarrow> Inl (if is_exception e then PluginExecutionError e else e)
          | Inr result \<Rightarrow> Inr result),
         m\<lparr>executed := executed m @ [(n, context)]\<rparr>)) \<and>
   (plugins m n = Some p \<longrightarrow>
      fst (disable_plugin m n) = None \<and>
      execute_plugin (snd (disable_plugin m n)) n context =
        (Inl (PluginError PluginDisabled None), snd (disable_plugin m n)) \<and>
      executed (snd (disable_plugin m n)) = executed m) \<and>
   (plugins m n = None \<longrightarrow>
      execute_plugin m n context = (Inl (PluginError PluginNotFound None), m))"
  by (auto simp: execute_plugin_def disable_plugin_def get_plugin_def split: sum.splits)

theorem execution_gating_witness:
  "plugins with_calc (str ''calc'') = Some calc \<and> enabled calc = Some True \<and>
   execute_plugin with_calc (str ''calc'') [(str ''expression'', JStr (str ''2+3''))] =
     (Inr [(str ''result'', JInt 5)],
      with_calc\<lparr>executed := [(str ''calc'', [(str ''expression'', JStr (str ''2+3''))])]\<rparr>) \<and>
   execute_plugin (snd (disable_plugin with_calc (str ''calc''))) (str ''calc'')
       [(str ''expression'', JStr (str ''2+3''))] =
     (Inl (PluginError PluginDisabled None), snd (disable_plugin with_calc (str ''calc''))) \<and>
   executed (snd (disable_plugin with_calc (str ''calc''))) = []"
proof -
  have h: "plugins with_calc (str ''calc'') = Some calc \<and> enabled calc = Some True"
    by (simp add: with_calc_def calc_def)
  note t = execution_gating[of with_calc "str ''calc''" calc
      "[(str ''expression'', JStr (str ''2+3''))]"]
  have "execute calc [(str ''expression'', JStr (str ''2+3''))] = Inr [(str ''result'', JInt 5)]"
    by (simp add: calc_def)
  moreover have "executed with_calc = []" by (simp add: with_calc_def)
  ultimately show ?thesis using t h by simp
qed

text \<open>
  The claim as stated fails for an exception that is not an \<open>Exception\<close>: a
  \<open>KeyboardInterrupt\<close> raised by the \<open>execute\<close> of an enabled plugin leaves \<open>execute_plugin\<close> as
  it was raised, not wrapped as \<open>PluginExecutionError\<close>.
\<close>

theorem interrupt_not_wrapped_counterexample:
  "plugins with_interrupted (str ''calc'') = Some interrupted \<and>
   enabled interrupted = Some True \<and>
   execute interrupted [] = Inl (RaisedBase (str ''KeyboardInterrupt'')) \<and>
   execute_plugin with_interrupted (str ''calc'') [] =
     (Inl (RaisedBase (str ''KeyboardInterrupt'')),
      with_interrupted\<lparr>executed := [(str ''calc'', [])]\<rparr>)"
  by (simp add: execute_plugin_def with_interrupted_def interrupted_def calc_def)

end
